theory Spec2Isabelle
  imports Complex_Main "HOL-Library.Sublist"
begin

section \<open>JavaScript strings\<close>

text \<open>
  A JavaScript string is modelled as a \<^typ>\<open>string\<close>: the list of its code units,
  restricted to the code units below 256.  The white space that \<^verbatim>\<open>trim\<close> removes is,
  in that range, TAB, LF, VT, FF, CR, SPACE and NBSP.
\<close>

definition isWhiteSpace :: "char \<Rightarrow> bool" where
  "isWhiteSpace c = (of_char c \<in> {9, 10, 11, 12, 13, 32, 160 :: nat})"

definition trim :: "string \<Rightarrow> string" where
  "trim s = rev (dropWhile isWhiteSpace (rev (dropWhile isWhiteSpace s)))"

text \<open>\<^verbatim>\<open>s.startsWith(c)\<close> for a one-character search string.\<close>

fun startsWith :: "string \<Rightarrow> char \<Rightarrow> bool" where
  "startsWith [] c = False"
| "startsWith (x # xs) c = (x = c)"

text \<open>
  \<^verbatim>\<open>s.indexOf(c)\<close> and \<^verbatim>\<open>s.lastIndexOf(c)\<close> for a one-character search string:
  the position of the first (last) occurrence, and \<open>-1\<close> when there is none.
\<close>

fun indexOf :: "string \<Rightarrow> char \<Rightarrow> int" where
  "indexOf [] c = - 1"
| "indexOf (x # xs) c =
     (if x = c then 0
      else (let i = indexOf xs c in if i = - 1 then - 1 else i + 1))"

fun lastIndexOf :: "string \<Rightarrow> char \<Rightarrow> int" where
  "lastIndexOf [] c = - 1"
| "lastIndexOf (x # xs) c =
     (let i = lastIndexOf xs c in
      if i = - 1 then (if x = c then 0 else - 1) else i + 1)"

text \<open>
  \<^verbatim>\<open>s.slice(a, b)\<close>, of strings and of arrays: a negative index counts from the
  end, and both indices are clipped to the length.
\<close>

definition slice :: "'a list \<Rightarrow> int \<Rightarrow> int \<Rightarrow> 'a list" where
  "slice s a b =
     (let n = int (length s);
          from = (if a < 0 then max (n + a) 0 else min a n);
          to = (if b < 0 then max (n + b) 0 else min b n)
      in take (nat (to - from)) (drop (nat from) s))"


section \<open>JSON values and the structured-output helper\<close>

text \<open>
  The values \<^verbatim>\<open>JSON.parse\<close> produces; an object lists its members, each name once.
  \<^verbatim>\<open>JSON.parse\<close> itself belongs to the language runtime: it is a parameter \<open>parse\<close>
  of the model, a partial function from texts to values, where \<open>None\<close> stands for the
  \<^verbatim>\<open>SyntaxError\<close> it throws.
\<close>

datatype json =
    JNull
  | JBool bool
  | JNumber real
  | JString string
  | JArray "json list"
  | JObject "(string \<times> json) list"

type_synonym json_parser = "string \<Rightarrow> json option"

text \<open>
  The three ways \<^verbatim>\<open>extractJsonFromLLMResponse\<close> throws, one per message:
  ``No valid JSON object found in LLM response'', ``Failed to parse JSON from LLM
  response'' and ``Failed to validate LLM response against schema''.
\<close>

datatype helper_error = NoJsonObjectFound | JsonParseFailed | SchemaValidationFailed

text \<open>
  The first phase of \<^verbatim>\<open>extractJsonFromLLMResponse\<close>: the text that is handed to
  \<^verbatim>\<open>JSON.parse\<close>.  A reply that starts with an opening brace after trimming is taken
  whole; otherwise the text from the first opening brace to the last closing brace is
  cut out.
\<close>

definition jsonText :: "string \<Rightarrow> helper_error + string" where
  "jsonText responseText =
     (let t = trim responseText in
      if \<not> startsWith t CHR ''{'' then
        (let firstBrace = indexOf t CHR ''{'';
             lastBrace = lastIndexOf t CHR ''}''
         in if firstBrace = - 1 \<or> lastBrace = - 1 \<or> lastBrace \<le> firstBrace
            then Inl NoJsonObjectFound
            else Inr (slice t firstBrace (lastBrace + 1)))
      else Inr t)"

text \<open>
  The second phase: parse, then validate with the schema.  A schema is modelled by its
  \<^verbatim>\<open>parse\<close> method, which returns the validated value or fails (\<open>None\<close>, the
  \<^verbatim>\<open>ZodError\<close>).  The only caller passes a schema; a call without one is a call with
  the schema \<open>Some\<close>.
\<close>

type_synonym 'a schema = "json \<Rightarrow> 'a option"

definition parseAndValidate :: "json_parser \<Rightarrow> 'a schema \<Rightarrow> string \<Rightarrow> helper_error + 'a" where
  "parseAndValidate parse schema txt =
     (case parse txt of
        None \<Rightarrow> Inl JsonParseFailed
      | Some parsed \<Rightarrow>
          (case schema parsed of
             None \<Rightarrow> Inl SchemaValidationFailed
           | Some v \<Rightarrow> Inr v))"

definition extractJsonFromLLMResponse ::
  "json_parser \<Rightarrow> string \<Rightarrow> 'a schema \<Rightarrow> helper_error + 'a" where
  "extractJsonFromLLMResponse parse responseText schema =
     (case jsonText responseText of
        Inl e \<Rightarrow> Inl e
      | Inr txt \<Rightarrow> parseAndValidate parse schema txt)"


section \<open>Query planning\<close>

text \<open>
  \<^verbatim>\<open>SearchQueriesSchema = z.object({queries: z.array(z.string()).min(3).max(5)})\<close>.
  The value must be an object whose \<^verbatim>\<open>queries\<close> member is an array of strings with
  at least 3 and at most 5 elements; other members are dropped.  The schema puts no
  constraint on the strings themselves.
\<close>

record SearchQueries =
  queries :: "string list"

fun zString :: "json \<Rightarrow> string option" where
  "zString (JString s) = Some s"
| "zString _ = None"

fun zStringArray :: "json list \<Rightarrow> string list option" where
  "zStringArray [] = Some []"
| "zStringArray (v # vs) =
     (case zString v of
        None \<Rightarrow> None
      | Some s \<Rightarrow> (case zStringArray vs of None \<Rightarrow> None | Some ss \<Rightarrow> Some (s # ss)))"

fun SearchQueriesSchema :: "SearchQueries schema" where
  "SearchQueriesSchema (JObject members) =
     (case map_of members ''queries'' of
        Some (JArray vs) \<Rightarrow>
          (case zStringArray vs of
             None \<Rightarrow> None
           | Some ss \<Rightarrow>
               if 3 \<le> length ss \<and> length ss \<le> 5 then Some \<lparr>queries = ss\<rparr> else None)
      | _ \<Rightarrow> None)"
| "SearchQueriesSchema _ = None"

text \<open>
  What a stage of the pipeline can throw.  \<open>LlmInvokeError\<close> is a rejected call of the
  language model; \<open>GenerationError\<close> is the error \<^verbatim>\<open>generateQueriesNode\<close> throws
  (``Failed to generate valid search queries''), carrying the helper's error;
  \<open>TypeError\<close> is a property read on \<^verbatim>\<open>undefined\<close>; \<open>VectorStoreError\<close> is a rejected
  call of the embedding store.
\<close>

datatype stage_error =
    LlmInvokeError string
  | GenerationError helper_error
  | TypeError
  | VectorStoreError string

text \<open>
  \<^verbatim>\<open>generateQueriesNode\<close>.  The prompt is only read by the language model, so the
  model's reply to it is the input here: \<open>Inl\<close> when the call is rejected, \<open>Inr\<close> the
  text of the reply.
\<close>

definition generateQueriesNode :: "json_parser \<Rightarrow> string + string \<Rightarrow> stage_error + string list" where
  "generateQueriesNode parse reply =
     (case reply of
        Inl e \<Rightarrow> Inl (LlmInvokeError e)
      | Inr content \<Rightarrow>
          (let responseText = trim content in
           case extractJsonFromLLMResponse parse responseText SearchQueriesSchema of
             Inl err \<Rightarrow> Inl (GenerationError err)
           | Inr parsed \<Rightarrow> Inr (queries parsed)))"


section \<open>JavaScript numbers, maps and sorting\<close>

text \<open>
  A number is modelled by the real it denotes; the values that denote none (NaN and the
  infinities) have no counterpart here.  An optional number (\<^verbatim>\<open>score?: number\<close>) is a
  \<^typ>\<open>real option\<close>, \<open>None\<close> being \<^verbatim>\<open>undefined\<close>.  Such a value is falsy when it
  is \<^verbatim>\<open>undefined\<close> or zero.
\<close>

fun truthy :: "real option \<Rightarrow> bool" where
  "truthy None = False"
| "truthy (Some x) = (x \<noteq> 0)"

text \<open>
  A \<^verbatim>\<open>Map\<close> keeps its entries in the order in which their keys were first set:
  an association list with distinct keys.  \<^verbatim>\<open>set\<close> on a present key replaces the value
  where it stands, on a new key it appends.
\<close>

type_synonym ('k, 'v) js_map = "('k \<times> 'v) list"

definition Map_has :: "('k, 'v) js_map \<Rightarrow> 'k \<Rightarrow> bool" where
  "Map_has m k = (map_of m k \<noteq> None)"

definition Map_get :: "('k, 'v) js_map \<Rightarrow> 'k \<Rightarrow> 'v option" where
  "Map_get m k = map_of m k"

fun Map_replace :: "('k, 'v) js_map \<Rightarrow> 'k \<Rightarrow> 'v \<Rightarrow> ('k, 'v) js_map" where
  "Map_replace [] k v = []"
| "Map_replace ((k', v') # m) k v =
     (if k' = k then (k', v) # m else (k', v') # Map_replace m k v)"

definition Map_set :: "('k, 'v) js_map \<Rightarrow> 'k \<Rightarrow> 'v \<Rightarrow> ('k, 'v) js_map" where
  "Map_set m k v = (if Map_has m k then Map_replace m k v else m @ [(k, v)])"

definition Map_values :: "('k, 'v) js_map \<Rightarrow> 'v list" where
  "Map_values m = map snd m"

text \<open>
  \<^verbatim>\<open>xs.toSorted(cmp)\<close>: the language requires a stable sort that puts \<open>a\<close> before
  \<open>b\<close> when \<open>cmp(a, b) < 0\<close>.  It is modelled by the stable insertion sort: an element
  is inserted in front of the first element it does not have to follow.
\<close>

fun insertSorted :: "('a \<Rightarrow> 'a \<Rightarrow> real) \<Rightarrow> 'a \<Rightarrow> 'a list \<Rightarrow> 'a list" where
  "insertSorted cmp x [] = [x]"
| "insertSorted cmp x (y # ys) =
     (if cmp x y \<le> 0 then x # y # ys else y # insertSorted cmp x ys)"

definition toSorted :: "('a \<Rightarrow> 'a \<Rightarrow> real) \<Rightarrow> 'a list \<Rightarrow> 'a list" where
  "toSorted cmp xs = foldr (insertSorted cmp) xs []"

text \<open>Decimal digits of a number, as \<^verbatim>\<open>${index + 1}\<close> prints them.\<close>

fun showNat :: "nat \<Rightarrow> string" where
  "showNat n =
     (if n < 10 then [char_of (48 + n)]
      else showNat (n div 10) @ [char_of (48 + n mod 10)])"

declare showNat.simps [simp del]

definition newline :: string where
  "newline = [CHR 0x0A]"

definition dquote :: string where
  "dquote = [CHR 0x22]"

fun join :: "string \<Rightarrow> string list \<Rightarrow> string" where
  "join sep [] = []"
| "join sep [x] = x"
| "join sep (x # y # ys) = x @ sep @ join sep (y # ys)"


section \<open>Search results\<close>

record StructuredSearchResult =
  title :: string
  url :: string
  snippet :: string
  relevanceScore :: "real option"

record SearchResult =
  query :: string
  results :: "StructuredSearchResult list"
  summary :: string
  timestamp :: nat

text \<open>A pause of the given number of milliseconds, and a request sent to SearxNG.\<close>

datatype event = HttpGet string | Sleep nat


section \<open>The raw-result fetch with retries\<close>

text \<open>
  One entry of the search engine's answer.  The answer's \<^verbatim>\<open>results\<close> member may be
  missing: \<open>None\<close>.
\<close>

record SearxNGResult =
  r_title :: string
  r_url :: string
  r_content :: string

text \<open>
  The HTTP client is a parameter: the outcome of the request of the given attempt
  for the given query, \<open>Inl\<close> when \<^verbatim>\<open>axios.get\<close> throws.
\<close>

type_synonym searx_http = "nat \<Rightarrow> string \<Rightarrow> string + SearxNGResult list option"

definition maxRetries :: nat where
  "maxRetries = 3"

definition retryDelay :: nat where
  "retryDelay = 3000"

definition toStructured :: "SearxNGResult \<Rightarrow> StructuredSearchResult" where
  "toStructured r =
     \<lparr>title = r_title r, url = r_url r,
      snippet = (if r_content r \<noteq> [] then r_content r else ''No description available''),
      relevanceScore = None\<rparr>"

text \<open>
  The loop of \<^verbatim>\<open>getStructuredResults\<close>, from the given attempt on.  The trace lists
  the requests and the pauses in the order they happen.
\<close>

function getStructuredResultsFrom ::
  "searx_http \<Rightarrow> string \<Rightarrow> nat \<Rightarrow> nat \<Rightarrow> event list \<Rightarrow> StructuredSearchResult list \<times> event list" where
  "getStructuredResultsFrom http q maxResults attempt tr =
     (if attempt \<le> maxRetries then
        (case http attempt q of
           Inr response \<Rightarrow>
             (case response of
                Some (r # rs) \<Rightarrow>
                  (map toStructured (slice (r # rs) 0 (int maxResults)), tr @ [HttpGet q])
              | _ \<Rightarrow>
                  if attempt < maxRetries
                  then getStructuredResultsFrom http q maxResults (attempt + 1)
                         (tr @ [HttpGet q, Sleep retryDelay])
                  else ([], tr @ [HttpGet q]))
         | Inl err \<Rightarrow>
             if attempt < maxRetries
             then getStructuredResultsFrom http q maxResults (attempt + 1)
                    (tr @ [HttpGet q, Sleep retryDelay])
             else ([], tr @ [HttpGet q]))
      else ([], tr))"
  by pat_completeness auto
termination
  by (relation "measure (\<lambda>(http, q, maxResults, attempt, tr). maxRetries + 1 - attempt)") auto

declare getStructuredResultsFrom.simps [simp del]

definition getStructuredResults ::
  "searx_http \<Rightarrow> string \<Rightarrow> nat \<Rightarrow> StructuredSearchResult list \<times> event list" where
  "getStructuredResults http q maxResults = getStructuredResultsFrom http q maxResults 1 []"


section \<open>The caching search tool\<close>

text \<open>
  \<^verbatim>\<open>SearchAgent.search\<close>, as the tool sees it, is a parameter: the outcome of the
  \<open>n\<close>-th outbound search (counting from 0) for the given query, \<open>Inl\<close> when it throws.
  The tool's state is its cache; \<open>searches\<close> records the queries of the outbound
  searches issued so far.
\<close>

type_synonym search_agent = "nat \<Rightarrow> string \<Rightarrow> string + SearchResult"

record SearchAgentTool =
  searchCache :: "(string, SearchResult) js_map"
  searches :: "string list"

definition newSearchAgentTool :: SearchAgentTool where
  "newSearchAgentTool = \<lparr>searchCache = [], searches = []\<rparr>"

fun formatLines :: "nat \<Rightarrow> StructuredSearchResult list \<Rightarrow> string list" where
  "formatLines index [] = []"
| "formatLines index (r # rs) =
     (showNat (index + 1) @ ''. '' @ title r @ newline @ ''   URL: '' @ url r @ newline
        @ ''   Snippet: '' @ snippet r) # formatLines (index + 1) rs"

definition formatResults :: "SearchResult \<Rightarrow> string" where
  "formatResults result =
     (let resultsList = join (newline @ newline) (formatLines 0 (slice (results result) 0 5))
      in ''Search Results for '' @ dquote @ query result @ dquote @ '':'' @ newline @ newline
         @ resultsList @ newline @ newline
         @ ''Summary:'' @ newline @ summary result @ newline @ newline
         @ ''Total results found: '' @ showNat (length (results result)))"

definition SearchAgentTool_call ::
  "search_agent \<Rightarrow> SearchAgentTool \<Rightarrow> string \<Rightarrow> string \<times> SearchAgentTool" where
  "SearchAgentTool_call search tool q =
     (case Map_get (searchCache tool) q of
        Some cached \<Rightarrow> (formatResults cached, tool)
      | None \<Rightarrow>
          (case search (length (searches tool)) q of
             Inl message \<Rightarrow>
               (''Error performing search: '' @ message, tool\<lparr>searches := searches tool @ [q]\<rparr>)
           | Inr result \<Rightarrow>
               (let tool' = tool\<lparr>searchCache := Map_set (searchCache tool) q result,
                                 searches := searches tool @ [q]\<rparr>
                in if results result = []
                   then (''No results found for query: '' @ dquote @ q @ dquote, tool')
                   else (formatResults result, tool'))))"

text \<open>
  \<^verbatim>\<open>getStructuredResult\<close> calls the tool and reads the cache; \<open>None\<close> is the
  \<^verbatim>\<open>undefined\<close> that \<^verbatim>\<open>Map.get\<close> gives for a key that is not there.
\<close>

definition getStructuredResult ::
  "search_agent \<Rightarrow> SearchAgentTool \<Rightarrow> string \<Rightarrow> SearchResult option \<times> SearchAgentTool" where
  "getStructuredResult search tool q =
     (let (message, tool') = SearchAgentTool_call search tool q
      in (Map_get (searchCache tool') q, tool'))"

definition clearCache :: "SearchAgentTool \<Rightarrow> SearchAgentTool" where
  "clearCache tool = tool\<lparr>searchCache := []\<rparr>"

text \<open>What a client does with a tool: a request for a query, or \<^verbatim>\<open>clearCache\<close>.\<close>

datatype tool_op = Request string | ClearCache

fun toolStep :: "search_agent \<Rightarrow> SearchAgentTool \<Rightarrow> tool_op \<Rightarrow> SearchAgentTool" where
  "toolStep search tool (Request q) = snd (getStructuredResult search tool q)"
| "toolStep search tool ClearCache = clearCache tool"

definition toolRun :: "search_agent \<Rightarrow> SearchAgentTool \<Rightarrow> tool_op list \<Rightarrow> SearchAgentTool" where
  "toolRun search tool ops = foldl (toolStep search) tool ops"


section \<open>The search stage\<close>

text \<open>
  \<^verbatim>\<open>searchNode\<close> resolves the queries one at a time.  After each query that differs
  from the last element of the query list it pauses 2000 ms.  The list it builds has
  one element per query: what \<^verbatim>\<open>getStructuredResult\<close> returned, \<^verbatim>\<open>undefined\<close>
  included.
\<close>

definition atLast :: "'a list \<Rightarrow> 'a option" where
  "atLast xs = (if xs = [] then None else Some (last xs))"

fun searchLoop ::
  "search_agent \<Rightarrow> string option \<Rightarrow> string list \<Rightarrow> SearchAgentTool
     \<Rightarrow> SearchResult option list \<times> event list \<times> SearchAgentTool" where
  "searchLoop search lastQuery [] tool = ([], [], tool)"
| "searchLoop search lastQuery (q # qs) tool =
     (let (result, tool') = getStructuredResult search tool q;
          pause = (if Some q \<noteq> lastQuery then [Sleep 2000] else []);
          (searchResults, pauses, tool'') = searchLoop search lastQuery qs tool'
      in (result # searchResults, pause @ pauses, tool''))"

definition searchNode ::
  "search_agent \<Rightarrow> SearchAgentTool \<Rightarrow> string list
     \<Rightarrow> SearchResult option list \<times> event list \<times> SearchAgentTool" where
  "searchNode search tool generatedQueries =
     searchLoop search (atLast generatedQueries) generatedQueries tool"


section \<open>The embedding store\<close>

text \<open>
  The store of the graph library keeps one value per namespace and key; it is modelled
  as a finite map.  A stored value is an object: its members in insertion order.
  Similarity search, which depends on the embedding model, is a parameter (below).
\<close>

type_synonym obj = "(string, json) js_map"

type_synonym store = "string list \<times> string \<Rightarrow> obj option"

definition newStore :: store where
  "newStore = Map.empty"

record SearchableContent =
  c_text :: string
  metadata :: "obj option"

text \<open>The object \<^verbatim>\<open>{...a, ...b}\<close>.\<close>

definition spread :: "obj \<Rightarrow> obj \<Rightarrow> obj" where
  "spread a b = foldl (\<lambda>m (k, v). Map_set m k v) a b"

definition addContent :: "store \<Rightarrow> string list \<Rightarrow> string \<Rightarrow> SearchableContent \<Rightarrow> store" where
  "addContent st namespace ident content =
     st((namespace, ident) \<mapsto>
        spread [(''text'', JString (c_text content))]
          (case metadata content of None \<Rightarrow> [] | Some md \<Rightarrow> md))"

definition addBatch ::
  "store \<Rightarrow> string list \<Rightarrow> (string \<times> SearchableContent) list \<Rightarrow> store" where
  "addBatch st namespace contents =
     foldl (\<lambda>st' (ident, content). addContent st' namespace ident content) st contents"

definition getById :: "store \<Rightarrow> string list \<Rightarrow> string \<Rightarrow> obj option" where
  "getById st namespace ident = st (namespace, ident)"

definition deleteById :: "store \<Rightarrow> string list \<Rightarrow> string \<Rightarrow> store" where
  "deleteById st namespace ident = st((namespace, ident) := None)"

text \<open>\<^verbatim>\<open>clearNamespace()\<close> takes no argument and has an empty body.\<close>

definition clearNamespace :: "store \<Rightarrow> store" where
  "clearNamespace st = st"

text \<open>
  A match of the similarity search, with the members the filter stage reads.  The
  search is a parameter: what the store returns for a namespace, a query text and a
  limit, given its content; \<open>Inl\<close> when the call is rejected.
\<close>

record MatchValue =
  v_title :: string
  v_url :: string
  v_snippet :: string
  v_query :: string
  v_summary :: string
  v_text :: string

record ScoredMatch =
  key :: string
  val :: MatchValue
  score :: "real option"

type_synonym vector_search =
  "store \<Rightarrow> string list \<Rightarrow> string \<Rightarrow> nat \<Rightarrow> string + ScoredMatch list"


section \<open>The filter stage\<close>

text \<open>
  The namespace of a run: every run of white space in the topic is replaced by one
  hyphen (\<^verbatim>\<open>replaceAll\<close> with a regular expression for one or more white-space
  characters), and the result is put in lower case.
\<close>

fun replaceRuns :: "bool \<Rightarrow> string \<Rightarrow> string" where
  "replaceRuns inRun [] = []"
| "replaceRuns inRun (c # cs) =
     (if isWhiteSpace c
      then (if inRun then replaceRuns True cs else CHR ''-'' # replaceRuns True cs)
      else c # replaceRuns False cs)"

definition replaceWhiteSpace :: "string \<Rightarrow> string" where
  "replaceWhiteSpace s = replaceRuns False s"

definition isUpperCase :: "char \<Rightarrow> bool" where
  "isUpperCase c =
     (let n = (of_char c :: nat)
      in (65 \<le> n \<and> n \<le> 90) \<or> (192 \<le> n \<and> n \<le> 222 \<and> n \<noteq> 215))"

definition toLowerCase :: "string \<Rightarrow> string" where
  "toLowerCase s =
     map (\<lambda>c. if isUpperCase c then char_of ((of_char c :: nat) + 32) else c) s"

definition namespaceOf :: "string \<Rightarrow> string list" where
  "namespaceOf topic = [''research'', toLowerCase (replaceWhiteSpace topic)]"

fun contentItemsOf :: "SearchResult \<Rightarrow> nat \<Rightarrow> StructuredSearchResult list
    \<Rightarrow> (string \<times> SearchableContent) list" where
  "contentItemsOf result index [] = []"
| "contentItemsOf result index (r # rs) =
     (query result @ ''-'' @ showNat index @ ''-'' @ url r,
      \<lparr>c_text = title r @ newline @ newline @ snippet r @ newline @ newline
               @ ''Query: '' @ query result,
       metadata = Some [(''title'', JString (title r)), (''url'', JString (url r)),
                        (''snippet'', JString (snippet r)), (''query'', JString (query result)),
                        (''summary'', JString (summary result))]\<rparr>)
     # contentItemsOf result (index + 1) rs"

text \<open>
  \<^verbatim>\<open>state.searchResults.flatMap(...)\<close> reads \<^verbatim>\<open>result.results\<close> of every element:
  on an \<^verbatim>\<open>undefined\<close> element that is a \<^verbatim>\<open>TypeError\<close>.
\<close>

fun contentItems :: "SearchResult option list \<Rightarrow> stage_error + (string \<times> SearchableContent) list" where
  "contentItems [] = Inr []"
| "contentItems (None # rest) = Inl TypeError"
| "contentItems (Some result # rest) =
     (case contentItems rest of
        Inl e \<Rightarrow> Inl e
      | Inr items \<Rightarrow> Inr (contentItemsOf result 0 (results result) @ items))"

text \<open>
  The relevance of a match: \<^verbatim>\<open>result.score ? Math.min(10, result.score * 10) : 5\<close>.
\<close>

definition relevanceOfScore :: "real option \<Rightarrow> real" where
  "relevanceOfScore sc = (if truthy sc then (case sc of Some x \<Rightarrow> min 10 (x * 10) | None \<Rightarrow> 5) else 5)"

text \<open>
  One turn of the grouping loop.  \<open>searchResults\<close> is \<^verbatim>\<open>state.searchResults\<close>, all
  of whose elements are defined when the loop is reached.
\<close>

definition groupMatch ::
  "SearchResult list \<Rightarrow> (string, SearchResult) js_map \<Rightarrow> ScoredMatch
     \<Rightarrow> (string, SearchResult) js_map" where
  "groupMatch searchResults resultsByQuery result =
     (let q = v_query (val result);
          seeded =
            (if \<not> Map_has resultsByQuery q then
               (case find (\<lambda>r. query r = q) searchResults of
                  Some originalResult \<Rightarrow> Map_set resultsByQuery q (originalResult\<lparr>results := []\<rparr>)
                | None \<Rightarrow> resultsByQuery)
             else resultsByQuery)
      in case Map_get seeded q of
           Some queryResult \<Rightarrow>
             Map_set seeded q
               (queryResult\<lparr>results := results queryResult @
                  [\<lparr>title = v_title (val result), url = v_url (val result),
                    snippet = v_snippet (val result),
                    relevanceScore = Some (relevanceOfScore (score result))\<rparr>]\<rparr>)
         | None \<Rightarrow> seeded)"

definition groupMatches :: "SearchResult list \<Rightarrow> ScoredMatch list \<Rightarrow> SearchResult list" where
  "groupMatches searchResults matches =
     Map_values (foldl (groupMatch searchResults) [] matches)"

fun definedResults :: "SearchResult option list \<Rightarrow> SearchResult list" where
  "definedResults [] = []"
| "definedResults (None # rest) = definedResults rest"
| "definedResults (Some r # rest) = r # definedResults rest"

definition filterNode ::
  "vector_search \<Rightarrow> store \<Rightarrow> string \<Rightarrow> SearchResult option list
     \<Rightarrow> (stage_error + SearchResult list) \<times> store" where
  "filterNode vsearch st topic searchResults =
     (let namespace = namespaceOf topic in
      case contentItems searchResults of
        Inl e \<Rightarrow> (Inl e, st)
      | Inr items \<Rightarrow>
          (let st' = addBatch st namespace items in
           case vsearch st' namespace topic 20 of
             Inl message \<Rightarrow> (Inl (VectorStoreError message), st')
           | Inr matches \<Rightarrow>
               (Inr (groupMatches (definedResults searchResults) matches), clearNamespace st')))"


section \<open>The summary stage\<close>

record Source =
  s_url :: string
  s_title :: string
  relevance :: real

text \<open>\<^verbatim>\<open>source.relevanceScore || 5\<close>.\<close>

definition relevanceOrDefault :: "real option \<Rightarrow> real" where
  "relevanceOrDefault r = (if truthy r then (case r of Some x \<Rightarrow> x | None \<Rightarrow> 5) else 5)"

text \<open>The entry made for an item, and one turn of the inner loop.\<close>

definition sourceOf :: "StructuredSearchResult \<Rightarrow> Source" where
  "sourceOf source =
     \<lparr>s_url = url source, s_title = title source,
      relevance = relevanceOrDefault (relevanceScore source)\<rparr>"

definition addSource ::
  "(string, Source) js_map \<Rightarrow> StructuredSearchResult \<Rightarrow> (string, Source) js_map" where
  "addSource sourcesMap source =
     (if \<not> Map_has sourcesMap (url source)
      then Map_set sourcesMap (url source) (sourceOf source)
      else sourcesMap)"

definition sourcesMapOf :: "SearchResult list \<Rightarrow> (string, Source) js_map" where
  "sourcesMapOf filteredResults =
     foldl (\<lambda>m result. foldl addSource m (results result)) [] filteredResults"

definition byRelevance :: "Source \<Rightarrow> Source \<Rightarrow> real" where
  "byRelevance a b = relevance b - relevance a"

text \<open>
  The source list of \<^verbatim>\<open>summarizeNode\<close>: the values of the map, sorted, the first 15.
\<close>

definition collectSources :: "SearchResult list \<Rightarrow> Source list" where
  "collectSources filteredResults =
     slice (toSorted byRelevance (Map_values (sourcesMapOf filteredResults))) 0 15"

text \<open>
  \<^verbatim>\<open>summarizeNode\<close>; the reply of the language model to the summary prompt is the
  input \<open>reply\<close>.
\<close>

definition summarizeNode ::
  "string + string \<Rightarrow> SearchResult list \<Rightarrow> stage_error + string \<times> Source list" where
  "summarizeNode reply filteredResults =
     (case reply of
        Inl e \<Rightarrow> Inl (LlmInvokeError e)
      | Inr content \<Rightarrow> Inr (content, collectSources filteredResults))"


section \<open>The storage tool and the save stage\<close>

text \<open>
  The database client is a parameter: \<open>dbConnect\<close> is \<open>Some\<close> message when
  \<^verbatim>\<open>client.connect()\<close> throws, and \<open>dbInsertOne\<close> gives the generated id or, as
  \<open>Inl\<close>, the error \<^verbatim>\<open>insertOne\<close> throws.
\<close>

record ResearchDocument =
  d_query :: json
  d_summary :: json
  d_sources :: json
  d_timestamp :: nat

record database =
  dbConnect :: "string option"
  dbInsertOne :: "ResearchDocument \<Rightarrow> string + string"

record MongoDBStorageTool =
  connected :: bool

text \<open>
  The string \<^verbatim>\<open>_call\<close> returns, by the branch that builds it: ``Successfully saved
  research to MongoDB with ID: ...'', ``Error: Input must contain "query" and "summary"
  fields.'', ``Error: Invalid JSON input. ...'' and ``Error saving to MongoDB: ...''.
\<close>

datatype storage_reply =
    Saved string
  | MissingFields
  | InvalidJson
  | SaveFailed

text \<open>Truthiness of a value, and of a member that may be missing.\<close>

fun jsTruthy :: "json \<Rightarrow> bool" where
  "jsTruthy JNull = False"
| "jsTruthy (JBool b) = b"
| "jsTruthy (JNumber x) = (x \<noteq> 0)"
| "jsTruthy (JString s) = (s \<noteq> [])"
| "jsTruthy (JArray vs) = True"
| "jsTruthy (JObject ms) = True"

fun truthyMember :: "json option \<Rightarrow> bool" where
  "truthyMember None = False"
| "truthyMember (Some v) = jsTruthy v"

text \<open>
  \<^verbatim>\<open>data.name\<close> for a parsed value other than \<^verbatim>\<open>null\<close>: the member of an object,
  and \<^verbatim>\<open>undefined\<close> on anything else.
\<close>

fun member :: "json \<Rightarrow> string \<Rightarrow> json option" where
  "member (JObject ms) name = Map_get ms name"
| "member _ name = None"

definition connect :: "database \<Rightarrow> MongoDBStorageTool \<Rightarrow> string + MongoDBStorageTool" where
  "connect db tool =
     (if \<not> connected tool then
        (case dbConnect db of
           Some message \<Rightarrow> Inl message
         | None \<Rightarrow> Inr (tool\<lparr>connected := True\<rparr>))
      else Inr tool)"

text \<open>
  \<^verbatim>\<open>MongoDBStorageTool._call\<close>.  Its whole body is inside \<^verbatim>\<open>try\<close>, and the
  \<^verbatim>\<open>catch\<close> returns a string: a \<^verbatim>\<open>SyntaxError\<close> of \<^verbatim>\<open>JSON.parse\<close> gives
  \<open>InvalidJson\<close>, every other error (reading a member of \<^verbatim>\<open>null\<close>, a failed
  connection, a failed insertion) gives \<open>SaveFailed\<close>.
\<close>

definition MongoDBStorageTool_call ::
  "json_parser \<Rightarrow> database \<Rightarrow> nat \<Rightarrow> MongoDBStorageTool \<Rightarrow> string
     \<Rightarrow> storage_reply \<times> MongoDBStorageTool" where
  "MongoDBStorageTool_call parse db now tool input =
     (case parse input of
        None \<Rightarrow> (InvalidJson, tool)
      | Some JNull \<Rightarrow> (SaveFailed, tool)
      | Some data \<Rightarrow>
          if \<not> truthyMember (member data ''query'') \<or> \<not> truthyMember (member data ''summary'')
          then (MissingFields, tool)
          else
            (case connect db tool of
               Inl message \<Rightarrow> (SaveFailed, tool)
             | Inr tool' \<Rightarrow>
                 (let document =
                        \<lparr>d_query = (case member data ''query'' of Some v \<Rightarrow> v | None \<Rightarrow> JNull),
                         d_summary = (case member data ''summary'' of Some v \<Rightarrow> v | None \<Rightarrow> JNull),
                         d_sources =
                           (case member data ''sources'' of
                              Some v \<Rightarrow> if jsTruthy v then v else JArray []
                            | None \<Rightarrow> JArray []),
                         d_timestamp = now\<rparr>
                  in case dbInsertOne db document of
                       Inl message \<Rightarrow> (SaveFailed, tool')
                     | Inr insertedId \<Rightarrow> (Saved insertedId, tool'))))"

text \<open>
  \<^verbatim>\<open>saveNode\<close> serialises the topic, the summary and the urls of the sources
  (\<^verbatim>\<open>JSON.stringify\<close>, a parameter), awaits the tool and returns an empty update.
  The tool's reply is not read; it is returned here next to the stage's outcome.
\<close>

definition saveNode ::
  "json_parser \<Rightarrow> (json \<Rightarrow> string) \<Rightarrow> database \<Rightarrow> nat \<Rightarrow> MongoDBStorageTool
     \<Rightarrow> string \<Rightarrow> string \<Rightarrow> Source list
     \<Rightarrow> (stage_error + unit) \<times> storage_reply \<times> MongoDBStorageTool" where
  "saveNode parse stringify db now tool topic summ sources =
     (let storageData =
        stringify (JObject [(''query'', JString topic), (''summary'', JString summ),
                            (''sources'', JArray (map (\<lambda>s. JString (s_url s)) sources))]);
          (reply, tool') = MongoDBStorageTool_call parse db now tool storageData
      in (Inr (), reply, tool'))"


section \<open>The pipeline\<close>

record ResearchReport =
  topic :: string
  report_queries :: "string list"
  report_summary :: string
  topSources :: "Source list"
  allResults :: "SearchResult list"
  report_timestamp :: nat

record ResearchAgent =
  searchTool :: SearchAgentTool
  vectorStore :: store
  storageTool :: MongoDBStorageTool

text \<open>
  Everything outside the program: the JSON functions of the runtime, the language
  model (its reply to the query prompt for a topic, and to the summary prompt for a
  topic and the filtered results), the search agent, the similarity search, the
  database and the clock.
\<close>

record collaborators =
  jsonParse :: json_parser
  jsonStringify :: "json \<Rightarrow> string"
  llmQueries :: "string \<Rightarrow> string + string"
  searchAgent :: search_agent
  vectorSearch :: vector_search
  llmSummary :: "string \<Rightarrow> SearchResult list \<Rightarrow> string + string"
  mongo :: database
  clock :: nat

text \<open>
  \<^verbatim>\<open>research\<close>: the five stages in their fixed order.  An error of a stage ends the
  run.  The second component is the storage tool's reply when the save stage was
  reached, the third the agent after the run.
\<close>

definition research ::
  "collaborators \<Rightarrow> ResearchAgent \<Rightarrow> string
     \<Rightarrow> (stage_error + ResearchReport) \<times> storage_reply option \<times> ResearchAgent" where
  "research env agent tpc =
     (case generateQueriesNode (jsonParse env) (llmQueries env tpc) of
        Inl e \<Rightarrow> (Inl e, None, agent)
      | Inr generatedQueries \<Rightarrow>
          (let (searchResults, pauses, tool') =
                 searchNode (searchAgent env) (searchTool agent) generatedQueries;
               agent1 = agent\<lparr>searchTool := tool'\<rparr>;
               (filtered, st') =
                 filterNode (vectorSearch env) (vectorStore agent1) tpc searchResults;
               agent2 = agent1\<lparr>vectorStore := st'\<rparr>
           in case filtered of
                Inl e \<Rightarrow> (Inl e, None, agent2)
              | Inr filteredResults \<Rightarrow>
                  (case summarizeNode (llmSummary env tpc filteredResults) filteredResults of
                     Inl e \<Rightarrow> (Inl e, None, agent2)
                   | Inr (summ, sources) \<Rightarrow>
                       (let (saved, reply, stool') =
                              saveNode (jsonParse env) (jsonStringify env) (mongo env) (clock env)
                                (storageTool agent2) tpc summ sources;
                            agent3 = agent2\<lparr>storageTool := stool'\<rparr>
                        in case saved of
                             Inl e \<Rightarrow> (Inl e, Some reply, agent3)
                           | Inr u \<Rightarrow>
                               (Inr \<lparr>topic = tpc, report_queries = generatedQueries,
                                     report_summary = summ, topSources = sources,
                                     allResults = filteredResults,
                                     report_timestamp = clock env\<rparr>,
                                Some reply, agent3)))))"



section \<open>Example collaborators\<close>

text \<open>
  Two search agents used in the examples below: one whose every search throws, and one
  whose every search succeeds without results.
\<close>

definition failingSearch :: search_agent where
  "failingSearch n q = Inl ''model unavailable''"

definition emptySearch :: search_agent where
  "emptySearch n q = Inr \<lparr>query = q, results = [], summary = ''nothing found'', timestamp = n\<rparr>"


text \<open>
  A run of the whole pipeline: a database whose insertion throws and one whose
  insertion succeeds, the JSON functions of the runtime on the three texts that occur,
  a similarity search without matches, and a language model with fixed replies.
\<close>

definition failingDatabase :: database where
  "failingDatabase = \<lparr>dbConnect = None, dbInsertOne = (\<lambda>document. Inl ''write failed'')\<rparr>"

definition workingDatabase :: database where
  "workingDatabase = \<lparr>dbConnect = None, dbInsertOne = (\<lambda>document. Inr ''id-1'')\<rparr>"

definition exampleStringify :: "json \<Rightarrow> string" where
  \<open>exampleStringify v =
     (if v = JObject [(''query'', JString ''AI''), (''summary'', JString ''report''),
                      (''sources'', JArray [])]
      then ''{"query":"AI","summary":"report","sources":[]}''
      else ''null'')\<close>

definition exampleParse :: json_parser where
  \<open>exampleParse =
     map_of
       [(''{"queries":["a","b","c"]}'',
         JObject [(''queries'', JArray [JString ''a'', JString ''b'', JString ''c''])]),
        (''{"query":"AI","summary":"report","sources":[]}'',
         JObject [(''query'', JString ''AI''), (''summary'', JString ''report''),
                  (''sources'', JArray [])]),
        (''null'', JNull)]\<close>

definition noMatches :: vector_search where
  "noMatches st namespace q limit = Inr []"

definition exampleCollaborators :: collaborators where
  \<open>exampleCollaborators =
     \<lparr>jsonParse = exampleParse,
      jsonStringify = exampleStringify,
      llmQueries = (\<lambda>tpc. Inr ''{"queries":["a","b","c"]}''),
      searchAgent = emptySearch,
      vectorSearch = noMatches,
      llmSummary = (\<lambda>tpc filteredResults. Inr ''report''),
      mongo = failingDatabase,
      clock = 7\<rparr>\<close>

definition newResearchAgent :: ResearchAgent where
  "newResearchAgent =
     \<lparr>searchTool = newSearchAgentTool, vectorStore = newStore,
      storageTool = \<lparr>connected = False\<rparr>\<rparr>"




section \<open>Properties of the structured-output helper\<close>

lemma indexOf_lower: "- 1 \<le> indexOf s c"
  by (induction s) (auto simp: Let_def)

lemma indexOf_absent: "indexOf s c = - 1 \<longleftrightarrow> c \<notin> set s"
proof (induction s)
  case Nil
  then show ?case by simp
next
  case (Cons a s)
  have "- 1 \<le> indexOf s c" by (rule indexOf_lower)
  with Cons show ?case by (auto simp: Let_def)
qed

lemma indexOf_append: "c \<notin> set pre \<Longrightarrow> indexOf (pre @ c # rest) c = int (length pre)"
  by (induction pre) (auto simp: Let_def)

lemma indexOf_first:
  "c \<in> set s \<Longrightarrow> \<exists>pre rest. s = pre @ c # rest \<and> c \<notin> set pre \<and> indexOf s c = int (length pre)"
proof -
  assume "c \<in> set s"
  then obtain pre rest where "s = pre @ c # rest" "c \<notin> set pre"
    by (meson split_list_first)
  then show ?thesis using indexOf_append by blast
qed

lemma lastIndexOf_lower: "- 1 \<le> lastIndexOf s c"
  by (induction s) (auto simp: Let_def)

lemma lastIndexOf_absent: "lastIndexOf s c = - 1 \<longleftrightarrow> c \<notin> set s"
proof (induction s)
  case Nil
  then show ?case by simp
next
  case (Cons a s)
  have "- 1 \<le> lastIndexOf s c" by (rule lastIndexOf_lower)
  with Cons show ?case by (auto simp: Let_def)
qed

lemma nth_before_first:
  "x \<notin> set pre \<Longrightarrow> (pre @ x # rest) ! i = x \<Longrightarrow> length pre \<le> i"
  by (rule ccontr) (auto simp: nth_append)

lemma nth_after_last:
  "x \<notin> set post \<Longrightarrow> j < length (pre @ x # post) \<Longrightarrow> (pre @ x # post) ! j = x \<Longrightarrow> j \<le> length pre"
  by (rule ccontr) (auto simp: nth_append nth_Cons split: nat.splits)

lemma lastIndexOf_append: "c \<notin> set post \<Longrightarrow> lastIndexOf (pre @ c # post) c = int (length pre)"
proof (induction pre)
  case Nil
  then show ?case by (simp add: Let_def lastIndexOf_absent)
next
  case (Cons a pre)
  then show ?case by (simp add: Let_def)
qed

lemma lastIndexOf_last:
  "c \<in> set s \<Longrightarrow> \<exists>pre post. s = pre @ c # post \<and> c \<notin> set post \<and> lastIndexOf s c = int (length pre)"
proof -
  assume "c \<in> set s"
  then obtain pre post where "s = pre @ c # post" "c \<notin> set post"
    by (meson split_list_last)
  then show ?thesis using lastIndexOf_append by blast
qed

lemma slice_middle:
  "slice (pre @ mid @ post) (int (length pre)) (int (length pre + length mid)) = mid"
  by (simp add: slice_def Let_def)

lemma noJson_iff:
  assumes "\<not> startsWith (trim reply) CHR ''{''"
  shows "jsonText reply = Inl NoJsonObjectFound \<longleftrightarrow>
         \<not> (\<exists>i j. i < j \<and> j < length (trim reply) \<and> trim reply ! i = CHR ''{'' \<and> trim reply ! j = CHR ''}'')"
proof -
  define t where "t = trim reply"
  have jt: "jsonText reply = Inl NoJsonObjectFound \<longleftrightarrow>
        (indexOf t CHR ''{'' = - 1 \<or> lastIndexOf t CHR ''}'' = - 1 \<or> lastIndexOf t CHR ''}'' \<le> indexOf t CHR ''{'')"
    using assms by (simp add: jsonText_def Let_def t_def)
  show ?thesis unfolding t_def[symmetric] jt
  proof
    assume a: "indexOf t CHR ''{'' = - 1 \<or> lastIndexOf t CHR ''}'' = - 1 \<or> lastIndexOf t CHR ''}'' \<le> indexOf t CHR ''{''"
    show "\<not> (\<exists>i j. i < j \<and> j < length t \<and> t ! i = CHR ''{'' \<and> t ! j = CHR ''}'')"
    proof
      assume "\<exists>i j. i < j \<and> j < length t \<and> t ! i = CHR ''{'' \<and> t ! j = CHR ''}''"
      then obtain i j where ij: "i < j" "j < length t" "t ! i = CHR ''{''" "t ! j = CHR ''}''" by blast
      then have o: "CHR ''{'' \<in> set t" and c: "CHR ''}'' \<in> set t"
        by (metis nth_mem order.strict_trans, metis nth_mem)
      from indexOf_first[OF o] obtain pre rest where
        p: "t = pre @ CHR ''{'' # rest" "CHR ''{'' \<notin> set pre" "indexOf t CHR ''{'' = int (length pre)" by blast
      from lastIndexOf_last[OF c] obtain pre' post where
        q: "t = pre' @ CHR ''}'' # post" "CHR ''}'' \<notin> set post" "lastIndexOf t CHR ''}'' = int (length pre')" by blast
      have "length pre \<le> i"
        using nth_before_first[OF p(2), of rest i] ij(3) p(1) by simp
      moreover have "j \<le> length pre'"
        using nth_after_last[OF q(2), of j pre'] ij(2) ij(4) q(1) by simp
      ultimately have "length pre < length pre'" using ij(1) by linarith
      then show False using a p(3) q(3) by auto
    qed
  next
    assume n: "\<not> (\<exists>i j. i < j \<and> j < length t \<and> t ! i = CHR ''{'' \<and> t ! j = CHR ''}'')"
    show "indexOf t CHR ''{'' = - 1 \<or> lastIndexOf t CHR ''}'' = - 1 \<or> lastIndexOf t CHR ''}'' \<le> indexOf t CHR ''{''"
    proof (rule ccontr)
      assume "\<not> ?thesis"
      then have a: "indexOf t CHR ''{'' \<noteq> - 1" "lastIndexOf t CHR ''}'' \<noteq> - 1"
        "indexOf t CHR ''{'' < lastIndexOf t CHR ''}''" by auto
      from a(1) have o: "CHR ''{'' \<in> set t" by (simp add: indexOf_absent)
      from a(2) have c: "CHR ''}'' \<in> set t" by (simp add: lastIndexOf_absent)
      from indexOf_first[OF o] obtain pre rest where
        p: "t = pre @ CHR ''{'' # rest" "indexOf t CHR ''{'' = int (length pre)" by blast
      from lastIndexOf_last[OF c] obtain pre' post where
        q: "t = pre' @ CHR ''}'' # post" "lastIndexOf t CHR ''}'' = int (length pre')" by blast
      have "length pre < length pre'" using a(3) p(2) q(2) by simp
      moreover have "length pre' < length t" using q(1) by simp
      moreover have "t ! length pre = CHR ''{''" using p(1) by simp
      moreover have "t ! length pre' = CHR ''}''" using q(1) by simp
      ultimately show False using n by blast
    qed
  qed
qed

lemma jsonText_cut:
  assumes t: "trim reply = pre @ ''{'' @ body @ ''}'' @ post"
    and pre: "CHR ''{'' \<notin> set pre" and post: "CHR ''}'' \<notin> set post" and ne: "pre \<noteq> []"
  shows "jsonText reply = Inr (''{'' @ body @ ''}'')"
proof -
  have s: "\<not> startsWith (trim reply) CHR ''{''"
    using t pre ne by (cases pre) auto
  have i: "indexOf (trim reply) CHR ''{'' = int (length pre)"
    using indexOf_append[OF pre, of "body @ ''}'' @ post"] t by simp
  have l: "lastIndexOf (trim reply) CHR ''}'' = int (length pre + 1 + length body)"
    using lastIndexOf_append[OF post, of "pre @ ''{'' @ body"] t by simp
  have "slice (pre @ (''{'' @ body @ ''}'') @ post) (int (length pre)) (int (length pre + length (''{'' @ body @ ''}''))) = ''{'' @ body @ ''}''"
    by (rule slice_middle)
  then have "slice (trim reply) (int (length pre)) (int (length pre + 1 + length body) + 1) = ''{'' @ body @ ''}''"
    using t by (simp add: add.commute add.left_commute)
  then show ?thesis using s i l by (simp add: jsonText_def Let_def)
qed

lemma parseAndValidate_not_NoJson: "parseAndValidate parse schema x \<noteq> Inl NoJsonObjectFound"
  by (simp add: parseAndValidate_def split: option.splits)

lemma extract_NoJson_iff:
  "extractJsonFromLLMResponse parse reply schema = Inl NoJsonObjectFound \<longleftrightarrow> jsonText reply = Inl NoJsonObjectFound"
  by (cases "jsonText reply") (auto simp: extractJsonFromLLMResponse_def parseAndValidate_not_NoJson)

text \<open>
  Claim C9, as the code has it.  For a reply whose trimmed text does not begin with an
  opening brace, the helper fails with the ``no JSON object found'' error exactly when
  the trimmed text has no opening brace that is followed, somewhere later, by a closing
  brace.  When the trimmed text is some non-empty text without an opening brace, then a
  brace-enclosed text, then text without a closing brace, the helper parses and
  validates exactly the brace-enclosed text: the cut goes from the first opening brace
  to the last closing brace.
\<close>

theorem extractJson_first_to_last_brace:
  "(\<not> startsWith (trim reply) CHR ''{'' \<longrightarrow>
      (extractJsonFromLLMResponse parse reply schema = Inl NoJsonObjectFound \<longleftrightarrow>
       \<not> (\<exists>i j. i < j \<and> j < length (trim reply) \<and>
                trim reply ! i = CHR ''{'' \<and> trim reply ! j = CHR ''}'')))
   \<and> (trim reply = pre @ ''{'' @ body @ ''}'' @ post \<and> pre \<noteq> [] \<and>
        CHR ''{'' \<notin> set pre \<and> CHR ''}'' \<notin> set post \<longrightarrow>
        extractJsonFromLLMResponse parse reply schema =
        parseAndValidate parse schema (''{'' @ body @ ''}''))"
proof (intro conjI impI)
  assume "\<not> startsWith (trim reply) CHR ''{''"
  then show "extractJsonFromLLMResponse parse reply schema = Inl NoJsonObjectFound \<longleftrightarrow>
       \<not> (\<exists>i j. i < j \<and> j < length (trim reply) \<and>
                trim reply ! i = CHR ''{'' \<and> trim reply ! j = CHR ''}'')"
    unfolding extract_NoJson_iff by (rule noJson_iff)
next
  assume "trim reply = pre @ ''{'' @ body @ ''}'' @ post \<and> pre \<noteq> [] \<and>
          CHR ''{'' \<notin> set pre \<and> CHR ''}'' \<notin> set post"
  then have "jsonText reply = Inr (''{'' @ body @ ''}'')"
    by (intro jsonText_cut) auto
  then show "extractJsonFromLLMResponse parse reply schema =
             parseAndValidate parse schema (''{'' @ body @ ''}'')"
    by (simp add: extractJsonFromLLMResponse_def)
qed

text \<open>
  The theorem at two replies: an object between a lead-in and a trailer, and a reply
  without braces.
\<close>

theorem extractJson_first_to_last_brace_witness:
  \<open>extractJsonFromLLMResponse
      (map_of [(''{"queries":["a","b","c"]}'',
                JObject [(''queries'', JArray [JString ''a'', JString ''b'', JString ''c''])])])
      ''Sure: {"queries":["a","b","c"]} ok '' SearchQueriesSchema
    = Inr \<lparr>queries = [''a'', ''b'', ''c'']\<rparr>
   \<and> extractJsonFromLLMResponse Map.empty ''no braces here'' SearchQueriesSchema
       = Inl NoJsonObjectFound\<close>
proof -
  have t1: \<open>trim ''Sure: {"queries":["a","b","c"]} ok '' =
            ''Sure: '' @ ''{'' @ ''"queries":["a","b","c"]'' @ ''}'' @ '' ok''\<close>
    by (simp add: trim_def isWhiteSpace_def)
  have a: \<open>extractJsonFromLLMResponse
      (map_of [(''{"queries":["a","b","c"]}'',
                JObject [(''queries'', JArray [JString ''a'', JString ''b'', JString ''c''])])])
      ''Sure: {"queries":["a","b","c"]} ok '' SearchQueriesSchema
    = Inr \<lparr>queries = [''a'', ''b'', ''c'']\<rparr>\<close>
    using extractJson_first_to_last_brace[of \<open>''Sure: {"queries":["a","b","c"]} ok ''\<close>
        \<open>map_of [(''{"queries":["a","b","c"]}'',
                  JObject [(''queries'', JArray [JString ''a'', JString ''b'', JString ''c''])])]\<close>
        SearchQueriesSchema \<open>''Sure: ''\<close> \<open>''"queries":["a","b","c"]''\<close> \<open>'' ok''\<close>] t1
    by (simp add: parseAndValidate_def)
  have t2: "trim ''no braces here'' = ''no braces here''"
    by (simp add: trim_def isWhiteSpace_def)
  have n: "\<not> (\<exists>i j. i < j \<and> j < length ''no braces here'' \<and>
                 ''no braces here'' ! i = CHR ''{'' \<and> ''no braces here'' ! j = CHR ''}'')"
  proof
    assume "\<exists>i j. i < j \<and> j < length ''no braces here'' \<and>
                 ''no braces here'' ! i = CHR ''{'' \<and> ''no braces here'' ! j = CHR ''}''"
    then obtain i j where "i < j" "j < length ''no braces here''"
      "''no braces here'' ! i = CHR ''{''" by blast
    then have "i < length ''no braces here''" by simp
    then have "''no braces here'' ! i \<in> set ''no braces here''" by (rule nth_mem)
    with \<open>''no braces here'' ! i = CHR ''{''\<close> show False by simp
  qed
  have b: "extractJsonFromLLMResponse Map.empty ''no braces here'' SearchQueriesSchema
           = Inl NoJsonObjectFound"
    using extractJson_first_to_last_brace[of "''no braces here''" Map.empty SearchQueriesSchema]
      t2 n by simp
  show ?thesis using a b by simp
qed

text \<open>
  Where the claim as stated fails.  A reply that begins with an opening brace is never
  answered with the ``no JSON object found'' error, although it may contain no
  brace-enclosed text; it is handed to the parser whole, trailing text included.  And
  the cut from the first opening to the last closing brace is not the balanced object
  when the surrounding text has braces of its own.
\<close>

theorem extractJson_not_balanced:
  \<open>extractJsonFromLLMResponse Map.empty ''{abc'' SearchQueriesSchema = Inl JsonParseFailed
   \<and> jsonText ''{"a":1} thanks'' = Inr ''{"a":1} thanks''
   \<and> jsonText ''see {x}: {"a":1}'' = Inr ''{x}: {"a":1}''
   \<and> extractJsonFromLLMResponse (map_of [(''{"a":1}'', JObject [(''a'', JNumber 1)])])
        ''{"a":1} thanks'' Some = Inl JsonParseFailed\<close>
  by (simp add: extractJsonFromLLMResponse_def jsonText_def trim_def isWhiteSpace_def
      parseAndValidate_def slice_def Let_def)


section \<open>Properties of query planning\<close>

lemma SearchQueriesSchema_arity:
  "SearchQueriesSchema v = Some p \<Longrightarrow> 3 \<le> length (queries p) \<and> length (queries p) \<le> 5"
  by (cases v) (auto split: option.splits json.splits if_splits)

lemma zStringArray_strings: "zStringArray (map JString ss) = Some ss"
  by (induction ss) auto

text \<open>
  Claim C2, as the code has it.  The query-planning stage either throws or returns
  between 3 and 5 strings; when the language model answered, what it throws is the
  generation error.  The schema checks the number of strings and nothing about the
  strings themselves: every array of 3 to 5 strings is accepted.
\<close>

theorem generateQueries_arity:
  "(case generateQueriesNode parse reply of
      Inl e \<Rightarrow>
        (case reply of
           Inl m \<Rightarrow> e = LlmInvokeError m
         | Inr content \<Rightarrow> e \<in> range GenerationError)
    | Inr qs \<Rightarrow> 3 \<le> length qs \<and> length qs \<le> 5)
   \<and> (3 \<le> length ss \<and> length ss \<le> 5 \<longrightarrow>
        SearchQueriesSchema (JObject [(''queries'', JArray (map JString ss))])
        = Some \<lparr>queries = ss\<rparr>)"
proof
  show "case generateQueriesNode parse reply of
      Inl e \<Rightarrow>
        (case reply of
           Inl m \<Rightarrow> e = LlmInvokeError m
         | Inr content \<Rightarrow> e \<in> range GenerationError)
    | Inr qs \<Rightarrow> 3 \<le> length qs \<and> length qs \<le> 5"
    using SearchQueriesSchema_arity
    by (auto simp: generateQueriesNode_def extractJsonFromLLMResponse_def parseAndValidate_def
        Let_def split: sum.splits option.splits)
next
  show "3 \<le> length ss \<and> length ss \<le> 5 \<longrightarrow>
        SearchQueriesSchema (JObject [(''queries'', JArray (map JString ss))])
        = Some \<lparr>queries = ss\<rparr>"
    by (simp add: zStringArray_strings)
qed

theorem generateQueries_arity_witness:
  \<open>generateQueriesNode
      (map_of [(''{"queries":["x","y","z"]}'',
                JObject [(''queries'', JArray [JString ''x'', JString ''y'', JString ''z''])])])
      (Inr ''{"queries":["x","y","z"]}'') = Inr [''x'', ''y'', ''z'']
   \<and> 3 \<le> length [''x'', ''y'', ''z''] \<and> length [''x'', ''y'', ''z''] \<le> 5
   \<and> SearchQueriesSchema (JObject [(''queries'', JArray (map JString [''x'', ''y'', ''z'']))])
       = Some \<lparr>queries = [''x'', ''y'', ''z'']\<rparr>\<close>
proof -
  have e: \<open>generateQueriesNode
      (map_of [(''{"queries":["x","y","z"]}'',
                JObject [(''queries'', JArray [JString ''x'', JString ''y'', JString ''z''])])])
      (Inr ''{"queries":["x","y","z"]}'') = Inr [''x'', ''y'', ''z'']\<close>
    by (simp add: generateQueriesNode_def extractJsonFromLLMResponse_def jsonText_def trim_def
        isWhiteSpace_def parseAndValidate_def Let_def)
  show ?thesis
    using generateQueries_arity[where
        parse = \<open>map_of [(''{"queries":["x","y","z"]}'',
                  JObject [(''queries'', JArray [JString ''x'', JString ''y'', JString ''z''])])]\<close>
        and reply = \<open>Inr ''{"queries":["x","y","z"]}''\<close> and ss = \<open>[''x'', ''y'', ''z'']\<close>] e
    by simp
qed

text \<open>
  Where the claim as stated fails: a reply with an empty string and a blank string
  among its three queries is accepted, and the stage returns them.
\<close>

theorem generateQueries_accepts_blank:
  \<open>generateQueriesNode
      (map_of [(''{"queries":[""," ","a"]}'',
                JObject [(''queries'', JArray [JString '''', JString '' '', JString ''a''])])])
      (Inr ''{"queries":[""," ","a"]}'')
    = Inr ['''', '' '', ''a'']
   \<and> trim '''' = '''' \<and> trim '' '' = ''''\<close>
  by (simp add: generateQueriesNode_def extractJsonFromLLMResponse_def jsonText_def trim_def
      isWhiteSpace_def parseAndValidate_def Let_def)


section \<open>Properties of the raw-result fetch\<close>

lemma retry_first:
  assumes "(\<exists>e. (http :: searx_http) 1 q = Inl e) \<or> http 1 q = Inr None \<or> http 1 q = Inr (Some [])"
  shows "getStructuredResultsFrom http q m 1 tr =
         getStructuredResultsFrom http q m 2 (tr @ [HttpGet q, Sleep retryDelay])"
  using assms getStructuredResultsFrom.simps[of http q m 1 tr] by (auto simp: maxRetries_def numeral_2_eq_2 numeral_3_eq_3)

lemma retry_second:
  assumes "(\<exists>e. (http :: searx_http) 2 q = Inl e) \<or> http 2 q = Inr None \<or> http 2 q = Inr (Some [])"
  shows "getStructuredResultsFrom http q m 2 tr =
         getStructuredResultsFrom http q m 3 (tr @ [HttpGet q, Sleep retryDelay])"
  using assms getStructuredResultsFrom.simps[of http q m 2 tr] by (auto simp: maxRetries_def numeral_2_eq_2 numeral_3_eq_3)

lemma retry_last:
  assumes "(\<exists>e. (http :: searx_http) 3 q = Inl e) \<or> http 3 q = Inr None \<or> http 3 q = Inr (Some [])"
  shows "getStructuredResultsFrom http q m 3 tr = ([], tr @ [HttpGet q])"
  using assms getStructuredResultsFrom.simps[of http q m 3 tr] by (auto simp: maxRetries_def numeral_2_eq_2 numeral_3_eq_3)

text \<open>
  Claim C7.  When every one of the three attempts for a query throws or brings an
  empty or missing result set, the fetch sends exactly three requests with a pause of
  3000 ms between consecutive ones, and returns the empty list.
\<close>

theorem getStructuredResults_exhausted:
  assumes "\<forall>attempt \<in> {1, 2, 3}.
             (\<exists>e. (http :: searx_http) attempt q = Inl e) \<or> http attempt q = Inr None \<or> http attempt q = Inr (Some [])"
  shows "getStructuredResults http q maxResults =
         ([], [HttpGet q, Sleep 3000, HttpGet q, Sleep 3000, HttpGet q])"
proof -
  have a1: "(\<exists>e. http 1 q = Inl e) \<or> http 1 q = Inr None \<or> http 1 q = Inr (Some [])"
    and a2: "(\<exists>e. http 2 q = Inl e) \<or> http 2 q = Inr None \<or> http 2 q = Inr (Some [])"
    and a3: "(\<exists>e. http 3 q = Inl e) \<or> http 3 q = Inr None \<or> http 3 q = Inr (Some [])"
    using assms by simp_all
  have "getStructuredResults http q maxResults = getStructuredResultsFrom http q maxResults 1 []"
    by (simp only: getStructuredResults_def)
  also have "\<dots> = getStructuredResultsFrom http q maxResults 2 ([] @ [HttpGet q, Sleep retryDelay])"
    using a1 by (rule retry_first[of http q])
  also have "\<dots> = getStructuredResultsFrom http q maxResults 3
                     (([] @ [HttpGet q, Sleep retryDelay]) @ [HttpGet q, Sleep retryDelay])"
    using a2 by (rule retry_second[of http q])
  also have "\<dots> = ([], (([] @ [HttpGet q, Sleep retryDelay]) @ [HttpGet q, Sleep retryDelay]) @ [HttpGet q])"
    using a3 by (rule retry_last[of http q])
  finally show ?thesis by (simp add: retryDelay_def)
qed

text \<open>
  The theorem at a client that answers without results, then times out, then answers
  with an empty list.
\<close>

theorem getStructuredResults_exhausted_witness:
  "getStructuredResults
     (\<lambda>n s. if n = 2 then Inl ''timeout'' else Inr (if n = 1 then None else Some [])) ''ai'' 5 =
   ([], [HttpGet ''ai'', Sleep 3000, HttpGet ''ai'', Sleep 3000, HttpGet ''ai''])"
proof -
  have h: "\<forall>attempt \<in> {1, 2, 3}.
      (\<exists>e. (\<lambda>(n::nat) (s::string). if n = 2 then Inl ''timeout'' else Inr (if n = 1 then None else Some [])) attempt ''ai'' = (Inl e :: string + SearxNGResult list option))
      \<or> (\<lambda>(n::nat) (s::string). if n = 2 then Inl ''timeout'' else Inr (if n = 1 then None else Some [])) attempt ''ai'' = (Inr None :: string + SearxNGResult list option)
      \<or> (\<lambda>(n::nat) (s::string). if n = 2 then Inl ''timeout'' else Inr (if n = 1 then None else Some [])) attempt ''ai'' = (Inr (Some []) :: string + SearxNGResult list option)"
    by simp
  show ?thesis
    using h getStructuredResults_exhausted[of "\<lambda>(n::nat) (s::string). if n = 2 then Inl ''timeout'' else Inr (if n = 1 then None else Some [])" "''ai''" 5]
    by blast
qed


section \<open>Properties of the caching search tool\<close>

lemma Map_set_new: "map_of m k = None \<Longrightarrow> Map_set m k v = m @ [(k, v)]"
  by (simp add: Map_set_def Map_has_def)

lemma map_of_snoc_same: "map_of m k = None \<Longrightarrow> map_of (m @ [(k, v)]) k = Some v"
  by (simp add: map_add_def)

lemma map_of_snoc_other: "k' \<noteq> k \<Longrightarrow> map_of (m @ [(k, v)]) k' = map_of m k'"
  by (simp add: map_add_def split: option.splits)

lemma getStructuredResult_hit:
  "Map_get (searchCache tool) q = Some r \<Longrightarrow> getStructuredResult search tool q = (Some r, tool)"
  by (simp add: getStructuredResult_def SearchAgentTool_call_def)

lemma getStructuredResult_stored:
  assumes "Map_get (searchCache tool) q = None" and "search (length (searches tool)) q = Inr r"
  shows "getStructuredResult search tool q =
         (Some r, tool\<lparr>searchCache := searchCache tool @ [(q, r)], searches := searches tool @ [q]\<rparr>)"
  using assms
  by (simp add: getStructuredResult_def SearchAgentTool_call_def Map_get_def Map_set_new
      map_of_snoc_same Let_def del: map_of_append)

lemma getStructuredResult_failed:
  assumes "Map_get (searchCache tool) q = None" and "search (length (searches tool)) q = Inl m"
  shows "getStructuredResult search tool q = (None, tool\<lparr>searches := searches tool @ [q]\<rparr>)"
  using assms
  by (simp add: getStructuredResult_def SearchAgentTool_call_def)

lemma request_cases:
  obtains (hit) r where "Map_get (searchCache tool) q = Some r" "toolStep search tool (Request q) = tool"
  | (stored) r where "Map_get (searchCache tool) q = None" "search (length (searches tool)) q = Inr r"
      "toolStep search tool (Request q) = tool\<lparr>searchCache := searchCache tool @ [(q, r)], searches := searches tool @ [q]\<rparr>"
  | (failed) m where "Map_get (searchCache tool) q = None" "search (length (searches tool)) q = Inl m"
      "toolStep search tool (Request q) = tool\<lparr>searches := searches tool @ [q]\<rparr>"
proof (cases "Map_get (searchCache tool) q")
  case None
  show ?thesis
  proof (cases "search (length (searches tool)) q")
    case (Inl m)
    then show ?thesis
      using None failed getStructuredResult_failed[of tool q search m] by simp
  next
    case (Inr r)
    then show ?thesis
      using None stored getStructuredResult_stored[of tool q search r] by simp
  qed
next
  case (Some r)
  then show ?thesis using hit getStructuredResult_hit[of tool q r search] by simp
qed

lemma cached_stays_step:
  assumes "Map_get (searchCache tool) q = Some r"
  shows "Map_get (searchCache (toolStep search tool (Request q'))) q = Some r
       \<and> count_list (searches (toolStep search tool (Request q'))) q = count_list (searches tool) q"
proof (cases rule: request_cases[of tool q' search])
  case (hit r')
  then show ?thesis using assms by simp
next
  case (stored r')
  then have "q' \<noteq> q" using assms by auto
  then show ?thesis using assms stored
    by (simp add: Map_get_def map_of_snoc_other del: map_of_append)
next
  case (failed m)
  then have "q' \<noteq> q" using assms by auto
  then show ?thesis using assms failed by simp
qed

lemma cached_stays:
  assumes "Map_get (searchCache tool) q = Some r" and "ClearCache \<notin> set ops"
  shows "Map_get (searchCache (toolRun search tool ops)) q = Some r
       \<and> count_list (searches (toolRun search tool ops)) q = count_list (searches tool) q"
  using assms
proof (induction ops arbitrary: tool)
  case Nil
  then show ?case by (simp add: toolRun_def)
next
  case (Cons op ops)
  then obtain q' where op: "op = Request q'" by (cases op) auto
  have run: "toolRun search tool (op # ops) = toolRun search (toolStep search tool op) ops"
    by (simp add: toolRun_def)
  from cached_stays_step[OF Cons.prems(1), of search q']
  have s: "Map_get (searchCache (toolStep search tool op)) q = Some r"
    and c: "count_list (searches (toolStep search tool op)) q = count_list (searches tool) q"
    using op by simp_all
  from Cons.IH[OF s] Cons.prems(2) c run show ?case by simp
qed

lemma all_ok_invariant:
  assumes ok: "\<forall>n q. \<exists>r. search n q = Inr r" and nc: "ClearCache \<notin> set ops"
    and inv: "distinct (searches tool)" "set (searches tool) = fst ` set (searchCache tool)"
  shows "distinct (searches (toolRun search tool ops))
       \<and> set (searches (toolRun search tool ops)) = fst ` set (searchCache (toolRun search tool ops))
       \<and> set (searches (toolRun search tool ops)) = set (searches tool) \<union> {q. Request q \<in> set ops}"
  using nc inv
proof (induction ops arbitrary: tool)
  case Nil
  then show ?case by (simp add: toolRun_def)
next
  case (Cons op ops)
  then obtain q where op: "op = Request q" by (cases op) auto
  have run: "toolRun search tool (op # ops) = toolRun search (toolStep search tool op) ops"
    by (simp add: toolRun_def)
  have step: "distinct (searches (toolStep search tool op))
      \<and> set (searches (toolStep search tool op)) = fst ` set (searchCache (toolStep search tool op))
      \<and> set (searches (toolStep search tool op)) = insert q (set (searches tool))"
  proof (cases rule: request_cases[of tool q search])
    case (hit r)
    then have "q \<in> fst ` set (searchCache tool)"
      by (metis Map_get_def domI dom_map_of_conv_image_fst)
    then show ?thesis using hit Cons.prems op by auto
  next
    case (stored r)
    then have "q \<notin> fst ` set (searchCache tool)"
      by (metis Map_get_def domIff dom_map_of_conv_image_fst)
    then show ?thesis using stored Cons.prems op by auto
  next
    case (failed m)
    then show ?thesis using ok by (metis Inl_Inr_False)
  qed
  have nc': "ClearCache \<notin> set ops" using Cons.prems(1) by simp
  have d: "distinct (searches (toolStep search tool op))"
    and e: "set (searches (toolStep search tool op)) = fst ` set (searchCache (toolStep search tool op))"
    and i: "set (searches (toolStep search tool op)) = insert q (set (searches tool))"
    using step by blast+
  from Cons.IH[OF nc' d e]
  have r1: "distinct (searches (toolRun search (toolStep search tool op) ops))"
    and r2: "set (searches (toolRun search (toolStep search tool op) ops)) =
             fst ` set (searchCache (toolRun search (toolStep search tool op) ops))"
    and r3: "set (searches (toolRun search (toolStep search tool op) ops)) =
             set (searches (toolStep search tool op)) \<union> {q. Request q \<in> set ops}"
    by blast+
  have "set (searches (toolStep search tool op)) \<union> {q. Request q \<in> set ops}
        = set (searches tool) \<union> {q'. Request q' \<in> set (op # ops)}"
    unfolding i using op by auto
  with r1 r2 r3 show ?case unfolding run by simp
qed

text \<open>
  Claim C6, as the code has it.  When a request finds its query not cached and the
  outbound search succeeds, then after any further requests (and no \<^verbatim>\<open>clearCache\<close>)
  a request for the same query returns the stored result and leaves the tool as it is:
  no outbound search is issued, and over the whole sequence exactly one outbound search
  was added for that query.  When no search throws and the cache is never cleared, the
  outbound searches of a new tool are pairwise distinct and are exactly the requested
  queries.
\<close>

theorem cache_hit_after_success:
  "(Map_get (searchCache tool) q = None \<and> search (length (searches tool)) q = Inr r \<and>
      ClearCache \<notin> set ops \<longrightarrow>
      getStructuredResult search (toolRun search tool (Request q # ops)) q
        = (Some r, toolRun search tool (Request q # ops))
      \<and> count_list (searches (toolRun search tool (Request q # ops))) q
        = count_list (searches tool) q + 1)
   \<and> ((\<forall>n q. \<exists>r. search n q = Inr r) \<and> ClearCache \<notin> set ops \<longrightarrow>
      distinct (searches (toolRun search newSearchAgentTool ops))
      \<and> set (searches (toolRun search newSearchAgentTool ops)) = {q. Request q \<in> set ops})"
proof (intro conjI impI)
  assume a: "Map_get (searchCache tool) q = None \<and> search (length (searches tool)) q = Inr r \<and>
      ClearCache \<notin> set ops"
  let ?t1 = "tool\<lparr>searchCache := searchCache tool @ [(q, r)], searches := searches tool @ [q]\<rparr>"
  have s1: "toolStep search tool (Request q) = ?t1"
    using getStructuredResult_stored[of tool q search r] a by simp
  have run: "toolRun search tool (Request q # ops) = toolRun search ?t1 ops"
    using s1 by (simp add: toolRun_def)
  have c1: "Map_get (searchCache ?t1) q = Some r"
    using a by (simp add: Map_get_def map_of_snoc_same del: map_of_append)
  from cached_stays[OF c1, of ops search] a
  have k: "Map_get (searchCache (toolRun search ?t1 ops)) q = Some r"
    and n: "count_list (searches (toolRun search ?t1 ops)) q = count_list (searches ?t1) q"
    by simp_all
  show "getStructuredResult search (toolRun search tool (Request q # ops)) q
        = (Some r, toolRun search tool (Request q # ops))"
    unfolding run using k by (rule getStructuredResult_hit)
  show "count_list (searches (toolRun search tool (Request q # ops))) q
        = count_list (searches tool) q + 1"
    unfolding run using n by simp
next
  assume a: "(\<forall>n q. \<exists>r. search n q = Inr r) \<and> ClearCache \<notin> set ops"
  have e: "set (searches newSearchAgentTool) = {}" by (simp add: newSearchAgentTool_def)
  from a have "distinct (searches (toolRun search newSearchAgentTool ops))
       \<and> set (searches (toolRun search newSearchAgentTool ops)) = fst ` set (searchCache (toolRun search newSearchAgentTool ops))
       \<and> set (searches (toolRun search newSearchAgentTool ops)) = set (searches newSearchAgentTool) \<union> {q. Request q \<in> set ops}"
    by (intro all_ok_invariant) (simp_all add: newSearchAgentTool_def)
  then have d: "distinct (searches (toolRun search newSearchAgentTool ops))"
    and u: "set (searches (toolRun search newSearchAgentTool ops)) = set (searches newSearchAgentTool) \<union> {q. Request q \<in> set ops}"
    by blast+
  show "distinct (searches (toolRun search newSearchAgentTool ops))" by (rule d)
  show "set (searches (toolRun search newSearchAgentTool ops)) = {q. Request q \<in> set ops}"
    unfolding u e by simp
qed

text \<open>
  The theorem at a tool whose searches succeed: the second request for a query is a
  cache hit.
\<close>

theorem cache_hit_after_success_witness:
  "getStructuredResult emptySearch
      (toolRun emptySearch newSearchAgentTool [Request ''a'', Request ''b'']) ''a''
     = (Some \<lparr>query = ''a'', results = [], summary = ''nothing found'', timestamp = 0\<rparr>,
        toolRun emptySearch newSearchAgentTool [Request ''a'', Request ''b''])
   \<and> count_list (searches (toolRun emptySearch newSearchAgentTool [Request ''a'', Request ''b''])) ''a'' = 1
   \<and> distinct (searches (toolRun emptySearch newSearchAgentTool [Request ''a'', Request ''b'', Request ''a'']))"
proof -
  have h1: "Map_get (searchCache newSearchAgentTool) ''a'' = None"
    by (simp add: newSearchAgentTool_def Map_get_def)
  have h2: "emptySearch (length (searches newSearchAgentTool)) ''a''
            = Inr \<lparr>query = ''a'', results = [], summary = ''nothing found'', timestamp = 0\<rparr>"
    by (simp add: emptySearch_def newSearchAgentTool_def)
  have h3: "ClearCache \<notin> set [Request ''b'']" by simp
  have h4: "\<forall>n q. \<exists>r. emptySearch n q = Inr r" by (simp add: emptySearch_def)
  have h5: "ClearCache \<notin> set [Request ''a'', Request ''b'', Request ''a'']" by simp
  have c0: "count_list (searches newSearchAgentTool) ''a'' = 0" by (simp add: newSearchAgentTool_def)
  from cache_hit_after_success[of newSearchAgentTool "''a''" emptySearch
      "\<lparr>query = ''a'', results = [], summary = ''nothing found'', timestamp = 0\<rparr>" "[Request ''b'']"]
    h1 h2 h3 c0
  have a: "getStructuredResult emptySearch
      (toolRun emptySearch newSearchAgentTool [Request ''a'', Request ''b'']) ''a''
     = (Some \<lparr>query = ''a'', results = [], summary = ''nothing found'', timestamp = 0\<rparr>,
        toolRun emptySearch newSearchAgentTool [Request ''a'', Request ''b''])
   \<and> count_list (searches (toolRun emptySearch newSearchAgentTool [Request ''a'', Request ''b''])) ''a'' = 1"
    by simp
  from cache_hit_after_success[of newSearchAgentTool "''a''" emptySearch
      "\<lparr>query = ''a'', results = [], summary = ''nothing found'', timestamp = 0\<rparr>"
      "[Request ''a'', Request ''b'', Request ''a'']"] h4 h5
  have b: "distinct (searches (toolRun emptySearch newSearchAgentTool [Request ''a'', Request ''b'', Request ''a'']))"
    by blast
  show ?thesis using a b by blast
qed

text \<open>
  Where the claim as stated fails: a search that throws stores nothing, so the same
  query goes out again; and so it does after \<^verbatim>\<open>clearCache\<close>.
\<close>

theorem failed_search_repeated:
  "searches (toolRun failingSearch newSearchAgentTool [Request ''a'', Request ''a'']) = [''a'', ''a'']
   \<and> searches (toolRun emptySearch newSearchAgentTool [Request ''a'', ClearCache, Request ''a''])
       = [''a'', ''a'']"
  by (simp add: toolRun_def getStructuredResult_def SearchAgentTool_call_def newSearchAgentTool_def
      failingSearch_def emptySearch_def clearCache_def Map_get_def Map_set_def Map_has_def Let_def)


section \<open>Properties of the search stage\<close>

lemma searchLoop_tool:
  "snd (snd (searchLoop search l qs tool)) = toolRun search tool (map Request qs)"
proof (induction qs arbitrary: tool)
  case Nil
  then show ?case by (simp add: toolRun_def)
next
  case (Cons q qs)
  have "toolRun search tool (map Request (q # qs))
        = toolRun search (snd (getStructuredResult search tool q)) (map Request qs)"
    by (simp add: toolRun_def)
  then show ?case using Cons.IH[of "snd (getStructuredResult search tool q)"]
    by (simp add: split_beta Let_def)
qed

lemma searchLoop_length: "length (fst (searchLoop search l qs tool)) = length qs"
  by (induction qs arbitrary: tool) (simp_all add: split_beta Let_def)

lemma searchLoop_nth:
  "i < length qs \<Longrightarrow>
   fst (searchLoop search l qs tool) ! i
     = fst (getStructuredResult search (toolRun search tool (map Request (take i qs))) (qs ! i))"
proof (induction qs arbitrary: i tool)
  case Nil
  then show ?case by simp
next
  case (Cons q qs)
  show ?case
  proof (cases i)
    case 0
    then show ?thesis by (simp add: split_beta Let_def toolRun_def)
  next
    case (Suc j)
    then have j: "j < length qs" using Cons.prems by simp
    have "toolRun search tool (map Request (take i (q # qs)))
          = toolRun search (snd (getStructuredResult search tool q)) (map Request (take j qs))"
      using Suc by (simp add: toolRun_def)
    then show ?thesis
      using Cons.IH[OF j, of "snd (getStructuredResult search tool q)"] Suc
      by (simp add: split_beta Let_def)
  qed
qed

text \<open>
  Claim C10.  When the query is not cached and the outbound search throws,
  \<^verbatim>\<open>getStructuredResult\<close> returns \<^verbatim>\<open>undefined\<close> (\<open>None\<close>) without throwing.  The
  search stage returns one element per query, and the element of a query whose search
  threw, in the state the tool has when the query's turn comes, is \<^verbatim>\<open>undefined\<close>.
\<close>

theorem failed_search_undefined:
  "(Map_get (searchCache tool) q = None \<and> search (length (searches tool)) q = Inl m \<longrightarrow>
      getStructuredResult search tool q = (None, tool\<lparr>searches := searches tool @ [q]\<rparr>))
   \<and> (i < length qs
       \<and> Map_get (searchCache (toolRun search tool (map Request (take i qs)))) (qs ! i) = None
       \<and> search (length (searches (toolRun search tool (map Request (take i qs))))) (qs ! i) = Inl m
      \<longrightarrow> length (fst (searchNode search tool qs)) = length qs
        \<and> fst (searchNode search tool qs) ! i = None)"
proof (intro conjI impI)
  assume "Map_get (searchCache tool) q = None \<and> search (length (searches tool)) q = Inl m"
  then show "getStructuredResult search tool q = (None, tool\<lparr>searches := searches tool @ [q]\<rparr>)"
    using getStructuredResult_failed[of tool q search m] by simp
next
  assume a: "i < length qs
       \<and> Map_get (searchCache (toolRun search tool (map Request (take i qs)))) (qs ! i) = None
       \<and> search (length (searches (toolRun search tool (map Request (take i qs))))) (qs ! i) = Inl m"
  show "length (fst (searchNode search tool qs)) = length qs"
    by (simp add: searchNode_def searchLoop_length)
  have "fst (searchNode search tool qs) ! i
        = fst (getStructuredResult search (toolRun search tool (map Request (take i qs))) (qs ! i))"
    using a by (simp add: searchNode_def searchLoop_nth)
  also have "\<dots> = None"
    using getStructuredResult_failed[of "toolRun search tool (map Request (take i qs))" "qs ! i" search m] a
    by simp
  finally show "fst (searchNode search tool qs) ! i = None" .
qed

text \<open>The theorem at three queries whose searches all throw.\<close>

theorem failed_search_undefined_witness:
  "getStructuredResult failingSearch newSearchAgentTool ''a''
     = (None, newSearchAgentTool\<lparr>searches := [''a'']\<rparr>)
   \<and> fst (searchNode failingSearch newSearchAgentTool [''a'', ''b'', ''c'']) ! 1 = None
   \<and> fst (searchNode failingSearch newSearchAgentTool [''a'', ''b'', ''c'']) = [None, None, None]"
proof -
  have h1: "Map_get (searchCache newSearchAgentTool) ''a'' = None"
    by (simp add: newSearchAgentTool_def Map_get_def)
  have h2: "failingSearch (length (searches newSearchAgentTool)) ''a'' = Inl ''model unavailable''"
    by (simp add: failingSearch_def)
  have t: "toolRun failingSearch newSearchAgentTool (map Request (take 1 [''a'', ''b'', ''c'']))
           = newSearchAgentTool\<lparr>searches := [''a'']\<rparr>"
    by (simp add: toolRun_def getStructuredResult_def SearchAgentTool_call_def newSearchAgentTool_def
        failingSearch_def Map_get_def)
  have h3: "Map_get (searchCache (toolRun failingSearch newSearchAgentTool (map Request (take 1 [''a'', ''b'', ''c''])))) ([''a'', ''b'', ''c''] ! 1) = None"
    unfolding t by (simp add: newSearchAgentTool_def Map_get_def)
  have h4: "failingSearch (length (searches (toolRun failingSearch newSearchAgentTool (map Request (take 1 [''a'', ''b'', ''c'']))))) ([''a'', ''b'', ''c''] ! 1) = Inl ''model unavailable''"
    by (simp add: failingSearch_def)
  have h5: "(1::nat) < length [''a'', ''b'', ''c'']" by simp
  from failed_search_undefined[of newSearchAgentTool "''a''" failingSearch "''model unavailable''" 1 "[''a'', ''b'', ''c'']"]
    h1 h2 h3 h4 h5
  have a: "getStructuredResult failingSearch newSearchAgentTool ''a''
     = (None, newSearchAgentTool\<lparr>searches := searches newSearchAgentTool @ [''a'']\<rparr>)
   \<and> fst (searchNode failingSearch newSearchAgentTool [''a'', ''b'', ''c'']) ! 1 = None"
    by blast
  have b: "fst (searchNode failingSearch newSearchAgentTool [''a'', ''b'', ''c'']) = [None, None, None]"
    by (simp add: searchNode_def atLast_def getStructuredResult_def SearchAgentTool_call_def
        newSearchAgentTool_def failingSearch_def Map_get_def)
  show ?thesis using a b by (simp add: newSearchAgentTool_def)
qed


section \<open>Properties of the filter stage and of the embedding store\<close>

text \<open>
  Claim C1 at the inputs it names.  A match whose score is 0 is given the relevance 5,
  not 0: the score is tested for truthiness, and 0 is falsy.  The scores 0.73 and 1.4
  give 7.3 and 10, and a missing score gives 5.
\<close>

theorem zero_score_relevance:
  "groupMatches
     [\<lparr>query = ''q'', results = [], summary = ''s'', timestamp = 0\<rparr>]
     [\<lparr>key = ''k'',
       val = \<lparr>v_title = ''t'', v_url = ''http://a'', v_snippet = ''n'', v_query = ''q'',
              v_summary = ''s'', v_text = ''x''\<rparr>,
       score = Some 0\<rparr>]
   = [\<lparr>query = ''q'',
       results = [\<lparr>title = ''t'', url = ''http://a'', snippet = ''n'', relevanceScore = Some 5\<rparr>],
       summary = ''s'', timestamp = 0\<rparr>]
   \<and> relevanceOfScore (Some 0) = 5
   \<and> relevanceOfScore (Some 0.73) = 7.3
   \<and> relevanceOfScore (Some 1.4) = 10
   \<and> relevanceOfScore None = 5"
  by (simp add: groupMatches_def groupMatch_def Map_has_def Map_get_def Map_set_def
      Map_values_def relevanceOfScore_def Let_def)

text \<open>
  Claim C8, as the code has it.  \<^verbatim>\<open>clearNamespace\<close> leaves the store as it is, so
  a lookup and a similarity search give after it what they gave before it.
\<close>

theorem clearNamespace_noop:
  "clearNamespace st = st
   \<and> getById (clearNamespace st) namespace ident = getById st namespace ident
   \<and> (vsearch :: vector_search) (clearNamespace st) namespace q limit = vsearch st namespace q limit"
  by (simp add: clearNamespace_def)

text \<open>
  Where the claim as stated fails: an entry added to a namespace is still found after
  \<^verbatim>\<open>clearNamespace\<close>.
\<close>

theorem clearNamespace_keeps_entry:
  "getById
     (clearNamespace
        (addContent newStore [''research'', ''x''] ''id1'' \<lparr>c_text = ''hello'', metadata = None\<rparr>))
     [''research'', ''x''] ''id1''
   = Some [(''text'', JString ''hello'')]"
  by (simp add: clearNamespace_def getById_def addContent_def spread_def)


section \<open>Properties of the source list\<close>

lemma sourcesMapOf_concat:
  "foldl (\<lambda>m result. foldl addSource m (results result)) m gs
   = foldl addSource m (concat (map results gs))"
  by (induction gs arbitrary: m) simp_all

lemma addSource_present: "map_of m (url i) \<noteq> None \<Longrightarrow> addSource m i = m"
  by (simp add: addSource_def Map_has_def)

lemma addSource_absent: "map_of m (url i) = None \<Longrightarrow> addSource m i = m @ [(url i, sourceOf i)]"
  by (simp add: addSource_def Map_has_def Map_set_def)


lemma remdups_snoc: "remdups (ys @ [x]) = filter (\<lambda>y. y \<noteq> x) (remdups ys) @ [x]"
  by (induction ys) auto

lemma firstOcc_Cons:
  "rev (remdups (rev (x # xs))) = x # filter (\<lambda>y. y \<noteq> x) (rev (remdups (rev xs)))"
  by (simp add: remdups_snoc rev_filter)

lemma addSource_fold_keys:
  "map fst (foldl addSource m items)
   = map fst m @ filter (\<lambda>u. u \<notin> fst ` set m) (rev (remdups (rev (map url items))))"
proof (induction items arbitrary: m)
  case Nil
  then show ?case by simp
next
  case (Cons i items)
  let ?rest = "rev (remdups (rev (map url items)))"
  have fo: "rev (remdups (rev (map url (i # items)))) = url i # filter (\<lambda>y. y \<noteq> url i) ?rest"
    using firstOcc_Cons[of "url i" "map url items"] by simp
  show ?case
  proof (cases "map_of m (url i)")
    case None
    then have ni: "url i \<notin> fst ` set m" by (simp add: map_of_eq_None_iff)
    have f: "filter (\<lambda>u. u \<notin> fst ` set (m @ [(url i, sourceOf i)])) ?rest
             = filter (\<lambda>u. u \<notin> fst ` set m) (filter (\<lambda>y. y \<noteq> url i) ?rest)"
      unfolding filter_filter by (rule filter_cong) auto
    have "map fst (foldl addSource m (i # items))
          = map fst (foldl addSource (m @ [(url i, sourceOf i)]) items)"
      using None by (simp add: addSource_absent)
    also have "\<dots> = map fst (m @ [(url i, sourceOf i)])
                     @ filter (\<lambda>u. u \<notin> fst ` set (m @ [(url i, sourceOf i)])) ?rest"
      by (rule Cons.IH)
    also have "\<dots> = map fst m @ filter (\<lambda>u. u \<notin> fst ` set m) (url i # filter (\<lambda>y. y \<noteq> url i) ?rest)"
      unfolding f using ni by simp
    finally show ?thesis unfolding fo .
  next
    case (Some s)
    then have ii: "url i \<in> fst ` set m" by (metis map_of_eq_None_iff option.distinct(1))
    have f: "filter (\<lambda>u. u \<notin> fst ` set m) (filter (\<lambda>y. y \<noteq> url i) ?rest)
             = filter (\<lambda>u. u \<notin> fst ` set m) ?rest"
      unfolding filter_filter by (rule filter_cong) (use ii in blast)+
    have "map fst (foldl addSource m (i # items)) = map fst (foldl addSource m items)"
      using Some by (simp add: addSource_present)
    also have "\<dots> = map fst m @ filter (\<lambda>u. u \<notin> fst ` set m) ?rest"
      by (rule Cons.IH)
    also have "\<dots> = map fst m @ filter (\<lambda>u. u \<notin> fst ` set m) (url i # filter (\<lambda>y. y \<noteq> url i) ?rest)"
      using ii f by simp
    finally show ?thesis unfolding fo .
  qed
qed

lemma addSource_fold_urls:
  "\<forall>(k, v) \<in> set m. s_url v = k \<Longrightarrow> \<forall>(k, v) \<in> set (foldl addSource m items). s_url v = k"
proof (induction items arbitrary: m)
  case Nil
  then show ?case by simp
next
  case (Cons i items)
  have "\<forall>(k, v) \<in> set (addSource m i). s_url v = k"
    using Cons.prems by (cases "map_of m (url i)") (auto simp: addSource_present addSource_absent sourceOf_def)
  then show ?case using Cons.IH by simp
qed

lemma sourcesMapOf_keys:
  "map fst (sourcesMapOf gs) = rev (remdups (rev (map url (concat (map results gs)))))"
  by (simp add: sourcesMapOf_def sourcesMapOf_concat addSource_fold_keys)


lemma sourcesMapOf_urls: "map s_url (Map_values (sourcesMapOf gs)) = map fst (sourcesMapOf gs)"
proof -
  have "\<forall>(k, v) \<in> set (sourcesMapOf gs). s_url v = k"
    unfolding sourcesMapOf_def sourcesMapOf_concat by (rule addSource_fold_urls) simp
  then show ?thesis by (auto simp: Map_values_def)
qed

lemma set_insertSorted: "set (insertSorted cmp x ys) = insert x (set ys)"
  by (induction ys) auto

lemma length_insertSorted: "length (insertSorted cmp x ys) = Suc (length ys)"
  by (induction ys) auto

lemma length_toSorted: "length (toSorted cmp xs) = length xs"
  by (induction xs) (simp_all add: toSorted_def length_insertSorted)

lemma sorted_insertSorted:
  "sorted_wrt (\<lambda>a b. relevance b \<le> relevance a) ys
   \<Longrightarrow> sorted_wrt (\<lambda>a b. relevance b \<le> relevance a) (insertSorted byRelevance x ys)"
  by (induction ys) (auto simp: set_insertSorted byRelevance_def)

lemma sorted_toSorted: "sorted_wrt (\<lambda>a b. relevance b \<le> relevance a) (toSorted byRelevance xs)"
  by (induction xs) (simp_all add: toSorted_def sorted_insertSorted)

lemma filter_insertSorted:
  "filter (\<lambda>s. relevance s = r) (insertSorted byRelevance x ys)
   = (if relevance x = r then x # filter (\<lambda>s. relevance s = r) ys
      else filter (\<lambda>s. relevance s = r) ys)"
  by (induction ys) (auto simp: byRelevance_def)

lemma filter_toSorted:
  "filter (\<lambda>s. relevance s = r) (toSorted byRelevance xs) = filter (\<lambda>s. relevance s = r) xs"
  by (induction xs) (simp_all add: toSorted_def filter_insertSorted)

lemma distinct_map_insertSorted:
  "distinct (map f (insertSorted cmp x ys)) \<longleftrightarrow> f x \<notin> f ` set ys \<and> distinct (map f ys)"
  by (induction ys) (auto simp: set_insertSorted)

lemma set_toSorted: "set (toSorted cmp xs) = set xs"
  by (induction xs) (simp_all add: toSorted_def set_insertSorted)

lemma distinct_map_toSorted: "distinct (map f (toSorted cmp xs)) \<longleftrightarrow> distinct (map f xs)"
proof (induction xs)
  case Nil
  then show ?case by (simp add: toSorted_def)
next
  case (Cons x xs)
  have "toSorted cmp (x # xs) = insertSorted cmp x (toSorted cmp xs)" by (simp add: toSorted_def)
  then show ?case using Cons by (simp add: distinct_map_insertSorted set_toSorted)
qed

lemma slice_take: "slice xs 0 (int n) = take n xs"
  by (simp add: slice_def Let_def min_def)

lemma collectSources_take:
  "collectSources gs = take 15 (toSorted byRelevance (Map_values (sourcesMapOf gs)))"
  using slice_take[of "toSorted byRelevance (Map_values (sourcesMapOf gs))" 15]
  by (simp add: collectSources_def)

text \<open>
  Claim C4.  The source list has at most 15 entries, namely as many as there are
  distinct urls among the items, up to 15.  It is non-increasing by relevance and holds
  every url at most once.  The sort is stable: for every relevance, the entries of
  that relevance appear in the order in which their urls were inserted in the map (a
  prefix of them, since the list is cut at 15).
\<close>

theorem collectSources_ranked:
  "length (collectSources gs) \<le> 15
   \<and> length (collectSources gs) = min 15 (card (set (map url (concat (map results gs)))))
   \<and> sorted_wrt (\<lambda>a b. relevance b \<le> relevance a) (collectSources gs)
   \<and> distinct (map s_url (collectSources gs))
   \<and> (\<forall>r. prefix (filter (\<lambda>s. relevance s = r) (collectSources gs))
                  (filter (\<lambda>s. relevance s = r) (Map_values (sourcesMapOf gs))))"
proof (intro conjI allI)
  let ?vals = "Map_values (sourcesMapOf gs)"
  let ?sorted = "toSorted byRelevance ?vals"
  show "length (collectSources gs) \<le> 15" by (simp add: collectSources_take)
  have "length ?vals = length (map fst (sourcesMapOf gs))" by (simp add: Map_values_def)
  also have "\<dots> = length (remdups (rev (map url (concat (map results gs)))))"
    unfolding sourcesMapOf_keys by simp
  also have "\<dots> = card (set (map url (concat (map results gs))))"
    by (metis length_remdups_card_conv set_rev)
  finally show "length (collectSources gs) = min 15 (card (set (map url (concat (map results gs)))))"
    by (simp add: collectSources_take length_toSorted min.commute)
  show "sorted_wrt (\<lambda>a b. relevance b \<le> relevance a) (collectSources gs)"
    unfolding collectSources_take by (rule sorted_wrt_take) (rule sorted_toSorted)
  have "distinct (map s_url ?vals)"
    unfolding sourcesMapOf_urls sourcesMapOf_keys by simp
  then have "distinct (map s_url ?sorted)" by (simp add: distinct_map_toSorted)
  then show "distinct (map s_url (collectSources gs))"
    unfolding collectSources_take by (simp add: take_map[symmetric] distinct_take)
  fix r
  have "prefix (filter (\<lambda>s. relevance s = r) (take 15 ?sorted)) (filter (\<lambda>s. relevance s = r) ?sorted)"
    by (intro filter_mono_prefix take_is_prefix)
  then show "prefix (filter (\<lambda>s. relevance s = r) (collectSources gs))
                  (filter (\<lambda>s. relevance s = r) ?vals)"
    unfolding collectSources_take by (simp add: filter_toSorted)
qed















section \<open>Properties of the save stage\<close>

lemma saveNode_completes: "fst (saveNode parse stringify db now tool tpc summ sources) = Inr ()"
  by (simp add: saveNode_def split_beta Let_def)

lemma research_after_save:
  "fst (snd (research env agent tpc)) \<noteq> None \<Longrightarrow> \<exists>report. fst (research env agent tpc) = Inr report"
  by (auto simp: research_def saveNode_def split_beta Let_def split: sum.splits)

lemma saved_only_if_inserted:
  "fst (MongoDBStorageTool_call parse db now tool input) = Saved i
   \<Longrightarrow> parse input \<noteq> None \<and> (connected tool \<or> dbConnect db = None) \<and> (\<exists>document. dbInsertOne db document = Inr i)"
  by (auto simp: MongoDBStorageTool_call_def connect_def Let_def
      split: option.splits json.splits if_splits sum.splits)

text \<open>
  Claim C3, as the code has it.  The save stage never throws: whatever the storage
  tool replies, it completes, and a run that reached the save stage returns its
  report.  A failed write shows only in the tool's reply, which nobody reads: an input
  that does not parse gives the ``invalid JSON'' reply, and the ``saved'' reply is given
  only when the input parsed, the connection was there or was made, and the insertion
  returned the id.
\<close>

theorem save_failure_swallowed:
  "fst (saveNode parse stringify db now tool tpc summ sources) = Inr ()
   \<and> (fst (snd (research env agent tpc)) \<noteq> None \<longrightarrow>
        (\<exists>report. fst (research env agent tpc) = Inr report))
   \<and> (parse input = None \<longrightarrow>
        fst (MongoDBStorageTool_call parse db now tool input) = InvalidJson)
   \<and> (fst (MongoDBStorageTool_call parse db now tool input) = Saved i \<longrightarrow>
        parse input \<noteq> None \<and> (connected tool \<or> dbConnect db = None)
        \<and> (\<exists>document. dbInsertOne db document = Inr i))"
proof (intro conjI impI)
  show "fst (saveNode parse stringify db now tool tpc summ sources) = Inr ()"
    by (rule saveNode_completes)
  show "\<exists>report. fst (research env agent tpc) = Inr report"
    if "fst (snd (research env agent tpc)) \<noteq> None"
    using that by (rule research_after_save)
  show "fst (MongoDBStorageTool_call parse db now tool input) = InvalidJson"
    if "parse input = None"
    using that by (simp add: MongoDBStorageTool_call_def)
  assume s: "fst (MongoDBStorageTool_call parse db now tool input) = Saved i"
  note k = saved_only_if_inserted[OF s]
  show "parse input \<noteq> None" using k by simp
  show "connected tool \<or> dbConnect db = None" using k by simp
  show "\<exists>document. dbInsertOne db document = Inr i" using k by simp
qed

lemma example_run_reply:
  "fst (snd (research exampleCollaborators newResearchAgent ''AI'')) = Some SaveFailed"
  by (simp add: research_def exampleCollaborators_def newResearchAgent_def generateQueriesNode_def
      extractJsonFromLLMResponse_def jsonText_def trim_def isWhiteSpace_def parseAndValidate_def
      exampleParse_def exampleStringify_def searchNode_def atLast_def getStructuredResult_def
      SearchAgentTool_call_def newSearchAgentTool_def emptySearch_def Map_get_def Map_set_def
      Map_has_def filterNode_def namespaceOf_def noMatches_def addBatch_def groupMatches_def
      Map_values_def clearNamespace_def summarizeNode_def collectSources_def sourcesMapOf_def
      toSorted_def slice_def saveNode_def MongoDBStorageTool_call_def connect_def
      failingDatabase_def Let_def split_beta)

text \<open>
  The theorem at the example run, at an input that is not JSON, and at a successful
  insertion.
\<close>

theorem save_failure_swallowed_witness:
  \<open>fst (saveNode exampleParse exampleStringify failingDatabase 7 \<lparr>connected = False\<rparr>
          ''AI'' ''report'' []) = Inr ()
   \<and> (\<exists>report. fst (research exampleCollaborators newResearchAgent ''AI'') = Inr report)
   \<and> fst (MongoDBStorageTool_call exampleParse failingDatabase 7 \<lparr>connected = False\<rparr>
            ''not json'') = InvalidJson
   \<and> fst (MongoDBStorageTool_call exampleParse workingDatabase 7 \<lparr>connected = False\<rparr>
            ''{"query":"AI","summary":"report","sources":[]}'') = Saved ''id-1''
   \<and> (\<exists>document. dbInsertOne workingDatabase document = Inr ''id-1'')\<close>
proof -
  have r: "fst (snd (research exampleCollaborators newResearchAgent ''AI'')) \<noteq> None"
    by (simp add: example_run_reply)
  have p: "exampleParse ''not json'' = None"
    by (simp add: exampleParse_def)
  have s: \<open>fst (MongoDBStorageTool_call exampleParse workingDatabase 7 \<lparr>connected = False\<rparr>
            ''{"query":"AI","summary":"report","sources":[]}'') = Saved ''id-1''\<close>
    by (simp add: MongoDBStorageTool_call_def exampleParse_def workingDatabase_def connect_def
        Map_get_def Let_def)
  have a: \<open>fst (saveNode exampleParse exampleStringify failingDatabase 7 \<lparr>connected = False\<rparr>
          ''AI'' ''report'' []) = Inr ()
   \<and> (\<exists>report. fst (research exampleCollaborators newResearchAgent ''AI'') = Inr report)
   \<and> fst (MongoDBStorageTool_call exampleParse failingDatabase 7 \<lparr>connected = False\<rparr>
            ''not json'') = InvalidJson\<close>
    using save_failure_swallowed[where parse = exampleParse and stringify = exampleStringify
        and db = failingDatabase and now = 7 and tool = "\<lparr>connected = False\<rparr>"
        and tpc = "''AI''" and summ = "''report''" and sources = "[]"
        and env = exampleCollaborators and agent = newResearchAgent and input = "''not json''"]
      r p by simp
  have b: \<open>\<exists>document. dbInsertOne workingDatabase document = Inr ''id-1''\<close>
    using save_failure_swallowed[where parse = exampleParse and db = workingDatabase and now = 7
        and tool = "\<lparr>connected = False\<rparr>"
        and input = \<open>''{"query":"AI","summary":"report","sources":[]}''\<close> and i = "''id-1''"]
      s by simp
  show ?thesis using a b s by simp
qed

text \<open>
  Where the claim as stated fails: in the example run the insertion throws, the tool
  replies ``Error saving to MongoDB'', and the call of \<^verbatim>\<open>research\<close> returns the
  report.
\<close>

theorem failed_save_completes:
  "fst (research exampleCollaborators newResearchAgent ''AI'')
     = Inr \<lparr>topic = ''AI'', report_queries = [''a'', ''b'', ''c''], report_summary = ''report'',
            topSources = [], allResults = [], report_timestamp = 7\<rparr>
   \<and> fst (snd (research exampleCollaborators newResearchAgent ''AI'')) = Some SaveFailed"
  by (simp add: research_def exampleCollaborators_def newResearchAgent_def generateQueriesNode_def
      extractJsonFromLLMResponse_def jsonText_def trim_def isWhiteSpace_def parseAndValidate_def
      exampleParse_def exampleStringify_def searchNode_def atLast_def getStructuredResult_def
      SearchAgentTool_call_def newSearchAgentTool_def emptySearch_def Map_get_def Map_set_def
      Map_has_def filterNode_def namespaceOf_def noMatches_def addBatch_def groupMatches_def
      Map_values_def clearNamespace_def summarizeNode_def collectSources_def sourcesMapOf_def
      toSorted_def slice_def saveNode_def MongoDBStorageTool_call_def connect_def
      failingDatabase_def Let_def split_beta)

end
